theory Spec2Isabelle
  imports Main
begin

section \<open>Errors and shared data\<close>

text \<open>
  A Stripe payment intent, as far as the sources read it: its id and its status string.
  It is also the provider data blob (\<open>payment.data\<close>, \<open>session.data\<close>) that the
  orchestrator stores without looking inside.
\<close>

record payment_intent =
  pi_id :: string
  pi_status :: string

text \<open>
  An error object thrown by an external collaborator (the Stripe client, the database
  driver): \<open>error.code\<close> and \<open>error.payment_intent\<close>, either of which may be
  undefined.
\<close>

record thrown_error =
  err_code :: "string option"
  err_payment_intent :: "payment_intent option"

text \<open>
  Everything a call can raise: a \<open>MedusaError\<close> of one of the five types the sources
  use, the \<open>TypeError\<close> JavaScript raises on reading a property of \<open>undefined\<close>, or
  an error object of a collaborator passed on as it is.
\<close>

datatype error =
    NOT_FOUND
  | NOT_ALLOWED
  | INVALID_ARGUMENT
  | INVALID_DATA
  | DUPLICATE_ERROR
  | TypeError
  | Thrown thrown_error

datatype PaymentSessionStatus = AUTHORIZED | PENDING | REQUIRES_MORE | ERROR | CANCELED

type_synonym timestamp = nat

type_synonym metadata = "(string \<times> string) list"

text \<open>
  A payment. Amounts are whole numbers of the currency's smallest unit, and a refund
  amount, a \<open>number\<close> in the sources, may be negative; \<open>captured_at\<close> is a date or
  \<open>null\<close>, and \<open>created_at\<close> is the date the default order of \<open>listPayments\<close> sorts
  by.
\<close>

record Payment =
  payment_id :: string
  payment_amount :: int
  amount_refunded :: int
  captured_at :: "timestamp option"
  payment_created_at :: timestamp
  payment_order_id :: "string option"
  payment_provider_id :: string
  payment_data :: payment_intent

section \<open>The Stripe adapter (stripe-base.js)\<close>

text \<open>
  The Stripe client \<open>this.stripe_\<close>: each call either returns a payment intent or throws
  an error object.
\<close>

record stripe =
  paymentIntents_retrieve :: "string \<Rightarrow> thrown_error + payment_intent"
  paymentIntents_capture :: "string \<Rightarrow> thrown_error + payment_intent"

text \<open>\<open>StripeBase.getStatus\<close>: the \<open>switch\<close> on the retrieved intent's status, in the
  source's case order.\<close>

definition getStatus :: "stripe \<Rightarrow> payment_intent \<Rightarrow> error + PaymentSessionStatus" where
  "getStatus client paymentData =
     (case paymentIntents_retrieve client (pi_id paymentData) of
        Inl e \<Rightarrow> Inl (Thrown e)
      | Inr paymentIntent \<Rightarrow>
          Inr (if pi_status paymentIntent = ''requires_payment_method''
                  \<or> pi_status paymentIntent = ''requires_confirmation''
                  \<or> pi_status paymentIntent = ''processing'' then PENDING
               else if pi_status paymentIntent = ''requires_action'' then REQUIRES_MORE
               else if pi_status paymentIntent = ''canceled'' then CANCELED
               else if pi_status paymentIntent = ''requires_capture''
                  \<or> pi_status paymentIntent = ''succeeded'' then AUTHORIZED
               else PENDING))"

text \<open>
  \<open>StripeBase.capturePayment\<close>. In the \<open>catch\<close> block \<open>error.payment_intent.status\<close>
  is read only when the code is \<open>payment_intent_unexpected_state\<close>; reading it from an
  error that carries no payment intent raises a \<open>TypeError\<close> in place of the error.
\<close>

definition StripeBase_capturePayment :: "stripe \<Rightarrow> Payment \<Rightarrow> error + payment_intent" where
  "StripeBase_capturePayment client payment =
     (case paymentIntents_capture client (pi_id (payment_data payment)) of
        Inr intent \<Rightarrow> Inr intent
      | Inl error \<Rightarrow>
          if err_code error = Some ''payment_intent_unexpected_state'' then
            (case err_payment_intent error of
               None \<Rightarrow> Inl TypeError
             | Some payment_intent \<Rightarrow>
                 if pi_status payment_intent = ''succeeded'' then Inr payment_intent
                 else Inl (Thrown error))
          else Inl (Thrown error))"

section \<open>The payment orchestrator (PaymentProviderService)\<close>

subsection \<open>Entities and the data store\<close>

text \<open>A refund as \<open>refundRepo.create(toCreate)\<close> builds it: the fields of \<open>toCreate\<close>.\<close>

record Refund =
  refund_order_id :: "string option"
  refund_payment_id :: "string option"
  refund_amount :: int
  refund_reason :: string
  refund_note :: "string option"

record PaymentSession =
  session_id :: string
  session_cart_id :: "string option"
  session_provider_id :: string
  session_data :: payment_intent
  session_is_selected :: "bool option"
  session_status :: PaymentSessionStatus
  session_amount :: "int option"
  payment_authorized_at :: "timestamp option"

text \<open>
  The tables the repositories read and write. A table is the list of its rows; the primary
  key of a row is its id.
\<close>

record db =
  payment_rows :: "Payment list"
  refund_rows :: "Refund list"
  session_rows :: "PaymentSession list"

record Customer =
  customer_id :: "string option"
  customer_metadata :: "metadata option"

record Cart =
  cart_id :: string
  cart_email :: string
  cart_total :: "int option"
  cart_region_currency_code :: "string option"
  cart_customer :: "Customer option"

record PaymentSessionInput =
  input_provider_id :: string
  input_cart :: "Cart option"
  input_customer :: "Customer option"
  input_currency_code :: string
  input_amount :: int

text \<open>
  The context handed to an adapter. \<open>ctx_id\<close> and \<open>ctx_customer\<close> are the \<open>id\<close> and
  \<open>customer\<close> properties that \<open>Object.assign(context, cart)\<close> copies from the cart;
  \<open>ctx_cart\<close> is \<open>context.cart\<close>, which for a cart of the older interface holds the
  cart's id and email but neither its total, its region nor its customer.
\<close>

record PaymentContext =
  ctx_cart :: "Cart option"
  ctx_amount :: "int option"
  ctx_currency_code :: "string option"
  ctx_collected_data :: metadata
  ctx_id :: "string option"
  ctx_customer :: "Customer option"

text \<open>
  What an adapter's \<open>createPayment\<close> returns: \<open>{session_data, collected_data?}\<close>, or,
  from an adapter of the older interface, the data blob itself.
\<close>

record CollectedData =
  collected_customer :: "metadata option"

datatype PaymentSessionResponse =
    SessionResponse payment_intent "CollectedData option"
  | LegacyData payment_intent

text \<open>
  A payment-provider adapter: the capabilities the orchestrator calls. Each may fail with
  any error, a \<open>MedusaError\<close> of its own or the error object of its client, and the
  orchestrator passes the failure on as it is.
\<close>

record adapter =
  provider_createPayment :: "PaymentContext \<Rightarrow> error + PaymentSessionResponse"
  provider_createPaymentNew :: "PaymentContext \<Rightarrow> error + PaymentSessionResponse"
  provider_authorizePayment ::
    "PaymentSession \<Rightarrow> metadata \<Rightarrow> error + (PaymentSessionStatus \<times> payment_intent)"
  provider_capturePayment :: "Payment \<Rightarrow> error + payment_intent"
  provider_refundPayment :: "Payment \<Rightarrow> int \<Rightarrow> error + payment_intent"

text \<open>
  The injected dependencies of the service: the container's registrations (keys
  \<open>pp_<id>\<close> and \<open>systemPaymentProviderService\<close>), the order-editing feature flag as
  \<open>featureFlagRouter_.isFeatureEnabled(OrderEditingFeatureFlag.key)\<close> reports it, the
  customer service's \<open>update(id, {metadata})\<close>, and the id a newly created session
  row gets.
\<close>

record deps =
  container :: "string \<rightharpoonup> adapter"
  orderEditingEnabled :: bool
  customerService_update :: "string \<Rightarrow> metadata \<Rightarrow> db \<Rightarrow> (error + unit) \<times> db"
  generateEntityId :: "db \<Rightarrow> string"

subsection \<open>Transactions and repositories\<close>

text \<open>
  Modelled from the spec: \<open>atomicPhase_\<close> (TransactionBaseService) is not part of the
  sources. It runs the unit of work in a transaction: a unit that fails leaves the store
  as it was and its error is passed on, a unit that returns commits its writes.
\<close>

definition atomicPhase :: "('s \<Rightarrow> (error + 'a) \<times> 's) \<Rightarrow> 's \<Rightarrow> (error + 'a) \<times> 's" where
  "atomicPhase work s =
     (case work s of
        (Inl e, _) \<Rightarrow> (Inl e, s)
      | (Inr r, s') \<Rightarrow> (Inr r, s'))"

text \<open>\<open>repository.save(entity)\<close>: the row with the entity's id is replaced, and an entity
  with a new id is inserted.\<close>

definition save_payment :: "Payment \<Rightarrow> Payment list \<Rightarrow> Payment list" where
  "save_payment p rows =
     (if payment_id p \<in> payment_id ` set rows
      then map (\<lambda>r. if payment_id r = payment_id p then p else r) rows
      else rows @ [p])"

definition save_session :: "PaymentSession \<Rightarrow> PaymentSession list \<Rightarrow> PaymentSession list" where
  "save_session s rows =
     (if session_id s \<in> session_id ` set rows
      then map (\<lambda>r. if session_id r = session_id s then s else r) rows
      else rows @ [s])"

definition retrievePayment :: "db \<Rightarrow> string \<Rightarrow> error + Payment" where
  "retrievePayment store ident =
     (case find (\<lambda>p. payment_id p = ident) (payment_rows store) of
        None \<Rightarrow> Inl NOT_FOUND
      | Some payment \<Rightarrow> Inr payment)"

definition retrieveSession :: "db \<Rightarrow> string \<Rightarrow> error + PaymentSession" where
  "retrieveSession store ident =
     (case find (\<lambda>s. session_id s = ident) (session_rows store) of
        None \<Rightarrow> Inl NOT_FOUND
      | Some session \<Rightarrow> Inr session)"

text \<open>
  Modelled from the spec: \<open>buildQuery\<close> and the repository's \<open>find\<close>, which
  \<open>listPayments\<close> calls, are not part of the sources. \<open>listPayments({id: ids})\<close> asks,
  with its default configuration \<open>{skip: 0, take: 50, order: {created_at: "DESC"}}\<close>, for
  the rows whose id is one of \<open>ids\<close>, newest first, and for no more than 50 of them. Rows
  created at the same time come in the order of the table.
\<close>

definition newest_first :: "Payment list \<Rightarrow> Payment list" where
  "newest_first rows = sort_key (\<lambda>p. - int (payment_created_at p)) rows"

definition listPayments :: "db \<Rightarrow> string list \<Rightarrow> Payment list" where
  "listPayments store ids =
     take 50 (drop 0 (newest_first (filter (\<lambda>p. payment_id p \<in> set ids) (payment_rows store))))"

subsection \<open>Resolving a provider\<close>

text \<open>
  Modelled from the spec: the container object (the dependency-injection cradle) is not
  part of the sources. Its type gives every \<open>pp_<id>\<close> key an adapter, so a read never
  yields \<open>undefined\<close>; reading a key that has no registration throws, which is the case the
  \<open>try\<close>/\<open>catch\<close> of \<open>retrieveProvider\<close> is written for.
\<close>

definition container_get :: "(string \<rightharpoonup> adapter) \<Rightarrow> string \<Rightarrow> error + adapter" where
  "container_get c key =
     (case c key of
        None \<Rightarrow> Inl (Thrown \<lparr>err_code = None, err_payment_intent = None\<rparr>)
      | Some provider \<Rightarrow> Inr provider)"

definition retrieveProvider :: "deps \<Rightarrow> string \<Rightarrow> error + adapter" where
  "retrieveProvider d providerId =
     (case (if providerId = ''system''
            then container_get (container d) ''systemPaymentProviderService''
            else container_get (container d) (''pp_'' @ providerId)) of
        Inr provider \<Rightarrow> Inr provider
      | Inl err \<Rightarrow> Inl NOT_FOUND)"

subsection \<open>Sessions\<close>

text \<open>The \<open>data\<close> argument of \<open>saveSession\<close>.\<close>

record SessionToSave =
  save_cartId :: "string option"
  save_amount :: "int option"
  save_sessionData :: payment_intent
  save_isSelected :: "bool option"
  save_status :: PaymentSessionStatus

text \<open>\<open>saveSession\<close>: the guard on the amount, then \<open>toCreate\<close> (which has no amount
  field) is created and saved as a new row.\<close>

definition saveSession :: "deps \<Rightarrow> string \<Rightarrow> SessionToSave \<Rightarrow> db \<Rightarrow> (error + PaymentSession) \<times> db" where
  "saveSession d providerId data store =
     (if save_amount data \<noteq> None \<and> \<not> orderEditingEnabled d
      then (Inl INVALID_ARGUMENT, store)
      else
        let created = \<lparr>session_id = generateEntityId d store,
                       session_cart_id = save_cartId data,
                       session_provider_id = providerId,
                       session_data = save_sessionData data,
                       session_is_selected = save_isSelected data,
                       session_status = save_status data,
                       session_amount = None,
                       payment_authorized_at = None\<rparr>
        in (Inr created, store\<lparr>session_rows := session_rows store @ [created]\<rparr>))"

text \<open>\<open>processCollectedData\<close>. A customer id that is the empty string is falsy.\<close>

definition processCollectedData ::
  "deps \<Rightarrow> string option \<Rightarrow> PaymentSessionResponse \<Rightarrow> db \<Rightarrow> (error + unit) \<times> db" where
  "processCollectedData d customerId paymentResponse store =
     (case (case paymentResponse of
              SessionResponse _ collected \<Rightarrow> collected
            | LegacyData _ \<Rightarrow> None) of
        None \<Rightarrow> (Inr (), store)
      | Some collected_data \<Rightarrow>
          (case (collected_customer collected_data, customerId) of
             (Some m, Some cid) \<Rightarrow>
               if cid \<noteq> [] then customerService_update d cid m store else (Inr (), store)
           | _ \<Rightarrow> (Inr (), store)))"

text \<open>\<open>paymentResponse.session_data ?? paymentResponse\<close>.\<close>

definition sessionDataOf :: "PaymentSessionResponse \<Rightarrow> payment_intent" where
  "sessionDataOf paymentResponse =
     (case paymentResponse of
        SessionResponse sd _ \<Rightarrow> sd
      | LegacyData raw \<Rightarrow> raw)"


definition customerMetadata :: "Customer option \<Rightarrow> metadata" where
  "customerMetadata c =
     (case c of
        None \<Rightarrow> []
      | Some customer \<Rightarrow> (case customer_metadata customer of None \<Rightarrow> [] | Some m \<Rightarrow> m))"



definition customerIdOf :: "Customer option \<Rightarrow> string option" where
  "customerIdOf c = (case c of None \<Rightarrow> None | Some customer \<Rightarrow> customer_id customer)"


definition createSessionNew ::
  "deps \<Rightarrow> PaymentSessionInput \<Rightarrow> db \<Rightarrow> (error + PaymentSession) \<times> db" where
  "createSessionNew d sessionInput =
     atomicPhase (\<lambda>store.
       case retrieveProvider d (input_provider_id sessionInput) of
         Inl e \<Rightarrow> (Inl e, store)
       | Inr provider \<Rightarrow>
           let context = \<lparr>ctx_cart = input_cart sessionInput,
                          ctx_amount = Some (input_amount sessionInput),
                          ctx_currency_code = Some (input_currency_code sessionInput),
                          ctx_collected_data = customerMetadata (input_customer sessionInput),
                          ctx_id = None,
                          ctx_customer = input_customer sessionInput\<rparr>
           in case provider_createPaymentNew provider context of
                Inl e \<Rightarrow> (Inl e, store)
              | Inr paymentResponse \<Rightarrow>
                  (case processCollectedData d (customerIdOf (input_customer sessionInput))
                          paymentResponse store of
                     (Inl e, store1) \<Rightarrow> (Inl e, store1)
                   | (Inr _, store1) \<Rightarrow>
                       saveSession d (input_provider_id sessionInput)
                         \<lparr>save_cartId = None,
                          save_amount = Some (input_amount sessionInput),
                          save_sessionData = sessionDataOf paymentResponse,
                          save_isSelected = None,
                          save_status = PENDING\<rparr> store1))"

text \<open>
  \<open>authorizePayment\<close>. A session that cannot be retrieved makes the call return
  \<open>undefined\<close>; \<open>now\<close> is the value of \<open>new Date()\<close>.
\<close>

definition authorizePayment ::
  "deps \<Rightarrow> timestamp \<Rightarrow> PaymentSession \<Rightarrow> metadata \<Rightarrow> db
     \<Rightarrow> (error + PaymentSession option) \<times> db" where
  "authorizePayment d now paymentSession context =
     atomicPhase (\<lambda>store.
       case retrieveSession store (session_id paymentSession) of
         Inl _ \<Rightarrow> (Inr None, store)
       | Inr session \<Rightarrow>
           (case retrieveProvider d (session_provider_id paymentSession) of
              Inl e \<Rightarrow> (Inl e, store)
            | Inr provider \<Rightarrow>
                (case provider_authorizePayment provider session context of
                   Inl e \<Rightarrow> (Inl e, store)
                 | Inr (status, data) \<Rightarrow>
                     let session1 = session\<lparr>session_data := data, session_status := status\<rparr>;
                         session2 = (if orderEditingEnabled d \<and> status = AUTHORIZED
                                     then session1\<lparr>payment_authorized_at := Some now\<rparr>
                                     else session1)
                     in (Inr (Some session2),
                         store\<lparr>session_rows := save_session session2 (session_rows store)\<rparr>))))"

subsection \<open>Capture\<close>

definition capturePayment :: "deps \<Rightarrow> timestamp \<Rightarrow> string \<Rightarrow> db \<Rightarrow> (error + Payment) \<times> db" where
  "capturePayment d now paymentObj_id =
     atomicPhase (\<lambda>store.
       case retrievePayment store paymentObj_id of
         Inl e \<Rightarrow> (Inl e, store)
       | Inr payment \<Rightarrow>
           (case retrieveProvider d (payment_provider_id payment) of
              Inl e \<Rightarrow> (Inl e, store)
            | Inr provider \<Rightarrow>
                (case provider_capturePayment provider payment of
                   Inl e \<Rightarrow> (Inl e, store)
                 | Inr data \<Rightarrow>
                     let payment1 = payment\<lparr>payment_data := data, captured_at := Some now\<rparr>
                     in (Inr payment1,
                         store\<lparr>payment_rows := save_payment payment1 (payment_rows store)\<rparr>))))"

subsection \<open>Refunds\<close>

text \<open>
  \<open>payments.find(predicate)\<close> returns the first matching object of the array. The loop
  then mutates that object, so the model keeps its position in the array.
\<close>

fun find_position :: "('a \<Rightarrow> bool) \<Rightarrow> 'a list \<Rightarrow> nat option" where
  "find_position P [] = None"
| "find_position P (x # xs) = (if P x then Some 0 else map_option Suc (find_position P xs))"

text \<open>The measure of the refund loop: the payments whose id is not yet in \<open>used\<close>.\<close>

definition unused_count :: "Payment list \<Rightarrow> string list \<Rightarrow> nat" where
  "unused_count payments used = length (filter (\<lambda>i. i \<notin> set used) (map payment_id payments))"

definition drain_measure :: "Payment list \<Rightarrow> string list \<Rightarrow> nat option \<Rightarrow> nat" where
  "drain_measure payments used cur =
     2 * unused_count payments used +
     (case cur of
        None \<Rightarrow> 0
      | Some i \<Rightarrow> if i < length payments \<and> payment_id (payments ! i) \<notin> set used then 0 else 1)"

text \<open>
  The \<open>while (paymentToRefund)\<close> loop of \<open>refundPayment\<close>. The loop variable is the
  position of \<open>paymentToRefund\<close> in \<open>payments\<close>, or \<open>None\<close> for \<open>undefined\<close>; it
  always comes from \<open>find_position\<close>, so it is a position of the array. The result is
  the error that stopped the loop, if any, the array as mutated and the store as written
  by \<open>paymentRepo.save\<close>. Each pass adds an id to \<open>used\<close> that was not there, which
  is why the loop ends.
\<close>

function drain ::
  "deps \<Rightarrow> Payment list \<Rightarrow> int \<Rightarrow> string list \<Rightarrow> nat option \<Rightarrow> db
     \<Rightarrow> error option \<times> Payment list \<times> db" where
  "drain d payments balance used None store = (None, payments, store)"
| "drain d payments balance used (Some i) store =
     (let paymentToRefund = payments ! i;
          currentRefundable = payment_amount paymentToRefund - amount_refunded paymentToRefund;
          refundAmount = min currentRefundable balance
      in case retrieveProvider d (payment_provider_id paymentToRefund) of
           Inl e \<Rightarrow> (Some e, payments, store)
         | Inr provider \<Rightarrow>
             (case provider_refundPayment provider paymentToRefund refundAmount of
                Inl e \<Rightarrow> (Some e, payments, store)
              | Inr data \<Rightarrow>
                  let saved = paymentToRefund
                        \<lparr>payment_data := data,
                         amount_refunded := amount_refunded paymentToRefund + refundAmount\<rparr>;
                      payments1 = payments[i := saved];
                      store1 = store\<lparr>payment_rows := save_payment saved (payment_rows store)\<rparr>;
                      balance1 = balance - refundAmount;
                      used1 = used @ [payment_id saved]
                  in drain d payments1 balance1 used1
                       (if balance1 > 0
                        then find_position
                               (\<lambda>payment. payment_amount payment - amount_refunded payment > 0
                                          \<and> payment_id payment \<notin> set used1) payments1
                        else None)
                       store1))"
  by pat_completeness auto

text \<open>
  The unit of work of \<open>refundPayment\<close>. The \<open>reduce\<close> sets \<open>order_id\<close> to the order of
  the payment it visits and adds the captured payments' balances; the first lookup of
  \<open>paymentToRefund\<close> has no \<open>used\<close> condition.
\<close>

definition refundPayment_work ::
  "deps \<Rightarrow> Payment list \<Rightarrow> int \<Rightarrow> string \<Rightarrow> string option \<Rightarrow> db \<Rightarrow> (error + Refund) \<times> db" where
  "refundPayment_work d payObjs amount reason note store =
     (let payments = listPayments store (map payment_id payObjs);
          (order_id, refundable) =
             foldl (\<lambda>(order_id, acc) next.
                      (payment_order_id next,
                       if captured_at next \<noteq> None
                       then acc + (payment_amount next - amount_refunded next)
                       else acc))
                   (None, 0) payments
      in if refundable < amount then (Inl NOT_ALLOWED, store)
         else
           (case drain d payments amount []
                   (find_position
                      (\<lambda>payment. payment_amount payment - amount_refunded payment > 0) payments)
                   store of
              (Some e, _, store1) \<Rightarrow> (Inl e, store1)
            | (None, _, store1) \<Rightarrow>
                let created = \<lparr>refund_order_id = order_id,
                               refund_payment_id = None,
                               refund_amount = amount,
                               refund_reason = reason,
                               refund_note = note\<rparr>
                in (Inr created, store1\<lparr>refund_rows := refund_rows store1 @ [created]\<rparr>)))"

definition refundPayment ::
  "deps \<Rightarrow> Payment list \<Rightarrow> int \<Rightarrow> string \<Rightarrow> string option \<Rightarrow> db \<Rightarrow> (error + Refund) \<times> db" where
  "refundPayment d payObjs amount reason note =
     atomicPhase (refundPayment_work d payObjs amount reason note)"

definition refundFromPayment_work ::
  "deps \<Rightarrow> Payment \<Rightarrow> int \<Rightarrow> string \<Rightarrow> string option \<Rightarrow> db \<Rightarrow> (error + Refund) \<times> db" where
  "refundFromPayment_work d payment amount reason note store =
     (let refundable = payment_amount payment - amount_refunded payment
      in if refundable < amount then (Inl NOT_ALLOWED, store)
         else
           (case retrieveProvider d (payment_provider_id payment) of
              Inl e \<Rightarrow> (Inl e, store)
            | Inr provider \<Rightarrow>
                (case provider_refundPayment provider payment amount of
                   Inl e \<Rightarrow> (Inl e, store)
                 | Inr data \<Rightarrow>
                     let payment1 = payment\<lparr>payment_data := data,
                                            amount_refunded := amount_refunded payment + amount\<rparr>;
                         store1 = store\<lparr>payment_rows := save_payment payment1 (payment_rows store)\<rparr>;
                         created = \<lparr>refund_order_id = None,
                                    refund_payment_id = Some (payment_id payment),
                                    refund_amount = amount,
                                    refund_reason = reason,
                                    refund_note = note\<rparr>
                     in (Inr created, store1\<lparr>refund_rows := refund_rows store1 @ [created]\<rparr>))))"

definition refundFromPayment ::
  "deps \<Rightarrow> Payment \<Rightarrow> int \<Rightarrow> string \<Rightarrow> string option \<Rightarrow> db \<Rightarrow> (error + Refund) \<times> db" where
  "refundFromPayment d payment amount reason note =
     atomicPhase (refundFromPayment_work d payment amount reason note)"

text \<open>
  Sequences of refund calls: each call runs on the store the call before it left, whether
  that call returned or failed.
\<close>

datatype refund_call =
    RefundPayment "Payment list" int string "string option"
  | RefundFromPayment Payment int string "string option"

fun exec_call :: "deps \<Rightarrow> refund_call \<Rightarrow> db \<Rightarrow> (error + Refund) \<times> db" where
  "exec_call d (RefundPayment payObjs amount reason note) store =
     refundPayment d payObjs amount reason note store"
| "exec_call d (RefundFromPayment payment amount reason note) store =
     refundFromPayment d payment amount reason note store"

fun run_calls :: "deps \<Rightarrow> refund_call list \<Rightarrow> db \<Rightarrow> db" where
  "run_calls d [] store = store"
| "run_calls d (c # cs) store = run_calls d cs (snd (exec_call d c store))"

text \<open>
  The drain as the specification words it, over the payments' remaining balances in their
  order: a payment with a positive balance takes the smaller of its balance and of what is
  left of the requested amount, as long as something is left.
\<close>

fun spec_greedy_increments :: "int list \<Rightarrow> int \<Rightarrow> int list" where
  "spec_greedy_increments [] left = []"
| "spec_greedy_increments (r # rs) left =
     (if 0 < r \<and> 0 < left
      then min r left # spec_greedy_increments rs (left - min r left)
      else 0 # spec_greedy_increments rs left)"

section \<open>Discount conditions (DiscountConditionService)\<close>

datatype DiscountConditionType =
  PRODUCTS | PRODUCT_TYPES | PRODUCT_COLLECTIONS | PRODUCT_TAGS | CUSTOMER_GROUPS

text \<open>The condition-upsert payload: each of the five lists may be missing.\<close>

record UpsertDiscountConditionInput =
  input_id :: "string option"
  input_operator :: "string option"
  products :: "string list option"
  product_collections :: "string list option"
  product_types :: "string list option"
  product_tags :: "string list option"
  customer_groups :: "string list option"

record ResolvedConditionType =
  resolved_type :: DiscountConditionType
  resource_ids :: "string list"

record DiscountCondition =
  condition_id :: string
  condition_type :: DiscountConditionType
  condition_operator :: "string option"
  discount_rule_id :: string
  condition_resources :: "string list"

record discount_db =
  condition_rows :: "DiscountCondition list"

text \<open>
  The collaborators of the service that are not part of the sources: the discount
  service's \<open>retrieve\<close> (it gives the discount's \<open>rule_id\<close>), the repository's own
  \<open>addConditionResources\<close>, and the id a newly saved condition gets.
\<close>

record discount_deps =
  discountService_retrieve :: "string \<Rightarrow> error + string"
  addConditionResources ::
    "string \<Rightarrow> string list \<Rightarrow> DiscountConditionType \<Rightarrow> bool \<Rightarrow> discount_db
       \<Rightarrow> (error + unit) \<times> discount_db"
  generateConditionId :: "discount_db \<Rightarrow> string"

text \<open>\<open>!!list?.length\<close>: the list is there and is not empty.\<close>

definition hasLength :: "string list option \<Rightarrow> bool" where
  "hasLength l = (case l of None \<Rightarrow> False | Some xs \<Rightarrow> length xs \<noteq> 0)"

text \<open>\<open>resolveConditionType_\<close>: the \<open>switch (true)\<close>, whose cases are tried in order.\<close>

definition resolveConditionType :: "UpsertDiscountConditionInput \<Rightarrow> ResolvedConditionType option" where
  "resolveConditionType data =
     (if hasLength (products data)
        then Some \<lparr>resolved_type = PRODUCTS, resource_ids = the (products data)\<rparr>
      else if hasLength (product_collections data)
        then Some \<lparr>resolved_type = PRODUCT_COLLECTIONS,
                   resource_ids = the (product_collections data)\<rparr>
      else if hasLength (product_types data)
        then Some \<lparr>resolved_type = PRODUCT_TYPES, resource_ids = the (product_types data)\<rparr>
      else if hasLength (product_tags data)
        then Some \<lparr>resolved_type = PRODUCT_TAGS, resource_ids = the (product_tags data)\<rparr>
      else if hasLength (customer_groups data)
        then Some \<lparr>resolved_type = CUSTOMER_GROUPS, resource_ids = the (customer_groups data)\<rparr>
      else None)"

text \<open>\<open>err.code\<close> of a raised error: only an error object of a collaborator carries one.\<close>

definition error_code :: "error \<Rightarrow> string option" where
  "error_code e = (case e of Thrown t \<Rightarrow> err_code t | _ \<Rightarrow> None)"

text \<open>\<open>PostgresError.DUPLICATE_ERROR\<close>, the driver's code of a unique-key violation.\<close>

definition PostgresError_DUPLICATE_ERROR :: string where
  "PostgresError_DUPLICATE_ERROR = ''23505''"

text \<open>
  Modelled from the spec: \<open>atomicPhase_\<close> (BaseService) with an error handler is not part
  of the sources. A unit of work that fails leaves the store as it was; the handler is
  run on its error, and the error is passed on unless the handler raises one of its own.
\<close>

definition atomicPhase_handled ::
  "('s \<Rightarrow> (error + 'a) \<times> 's) \<Rightarrow> (error \<Rightarrow> error option) \<Rightarrow> 's \<Rightarrow> (error + 'a) \<times> 's" where
  "atomicPhase_handled work handler s =
     (case work s of
        (Inr r, s') \<Rightarrow> (Inr r, s')
      | (Inl e, _) \<Rightarrow>
          (case handler e of
             Some raised \<Rightarrow> (Inl raised, s)
           | None \<Rightarrow> (Inl e, s)))"

text \<open>
  \<open>discountConditionRepo.save(created)\<close>: the table has a unique key on rule id, type and
  operator (the comment in \<open>upsertCondition\<close> says so), and a second row with the same
  three makes the driver throw.
\<close>

definition save_condition ::
  "discount_deps \<Rightarrow> string \<Rightarrow> string option \<Rightarrow> DiscountConditionType \<Rightarrow> discount_db
     \<Rightarrow> (error + DiscountCondition) \<times> discount_db" where
  "save_condition dd rule_id operator ty store =
     (if \<exists>c \<in> set (condition_rows store).
           discount_rule_id c = rule_id \<and> condition_type c = ty \<and> condition_operator c = operator
      then (Inl (Thrown \<lparr>err_code = Some PostgresError_DUPLICATE_ERROR,
                          err_payment_intent = None\<rparr>), store)
      else
        let discountCondition = \<lparr>condition_id = generateConditionId dd store,
                                 condition_type = ty,
                                 condition_operator = operator,
                                 discount_rule_id = rule_id,
                                 condition_resources = []\<rparr>
        in (Inr discountCondition,
            store\<lparr>condition_rows := condition_rows store @ [discountCondition]\<rparr>))"

definition upsertCondition ::
  "discount_deps \<Rightarrow> string \<Rightarrow> UpsertDiscountConditionInput \<Rightarrow> discount_db
     \<Rightarrow> (error + unit) \<times> discount_db" where
  "upsertCondition dd discountId data =
     (let resolvedConditionType = resolveConditionType data
      in atomicPhase_handled
           (\<lambda>store.
              case resolvedConditionType of
                None \<Rightarrow> (Inl INVALID_DATA, store)
              | Some resolved \<Rightarrow>
                  if input_id data \<noteq> None \<and> input_id data \<noteq> Some []
                  then addConditionResources dd (the (input_id data)) (resource_ids resolved)
                         (resolved_type resolved) True store
                  else
                    (case discountService_retrieve dd discountId of
                       Inl e \<Rightarrow> (Inl e, store)
                     | Inr rule_id \<Rightarrow>
                         (case save_condition dd rule_id (input_operator data)
                                 (resolved_type resolved) store of
                            (Inl e, store1) \<Rightarrow> (Inl e, store1)
                          | (Inr discountCondition, store1) \<Rightarrow>
                              addConditionResources dd (condition_id discountCondition)
                                (resource_ids resolved) (resolved_type resolved) False store1)))
           (\<lambda>err. if error_code err = Some PostgresError_DUPLICATE_ERROR
                   then Some DUPLICATE_ERROR else None))"

text \<open>\<open>remove\<close>: \<open>findOne\<close> by id, then \<open>conditionRepo.remove\<close> of the row found, which
  deletes the row with that primary key.\<close>

definition remove_condition :: "string \<Rightarrow> discount_db \<Rightarrow> (error + unit) \<times> discount_db" where
  "remove_condition discountConditionId =
     atomicPhase (\<lambda>store.
       case find (\<lambda>c. condition_id c = discountConditionId) (condition_rows store) of
         None \<Rightarrow> (Inr (), store)
       | Some condition \<Rightarrow>
           (Inr (),
            store\<lparr>condition_rows :=
                     filter (\<lambda>c. condition_id c \<noteq> condition_id condition)
                       (condition_rows store)\<rparr>))"

section \<open>Vocabulary of the refund proofs\<close>

text \<open>The balance of a payment that can still be refunded.\<close>

definition remaining :: "Payment \<Rightarrow> int" where
  "remaining p = payment_amount p - amount_refunded p"

text \<open>The invariant of the payment table: no row is refunded beyond its amount.\<close>

definition rows_ok :: "Payment list \<Rightarrow> bool" where
  "rows_ok rows = list_all (\<lambda>p. amount_refunded p \<le> payment_amount p) rows"

text \<open>The payment object after one pass of the loop body: the adapter's data and the refund
  amount \<open>Math.min(currentRefundable, balance)\<close> added.\<close>

definition refunded_by :: "Payment \<Rightarrow> payment_intent \<Rightarrow> int \<Rightarrow> Payment" where
  "refunded_by p data balance =
     p\<lparr>payment_data := data,
       amount_refunded := amount_refunded p + min (remaining p) balance\<rparr>"

text \<open>The predicate of the lookup inside the loop.\<close>

definition unused_refundable :: "string list \<Rightarrow> Payment \<Rightarrow> bool" where
  "unused_refundable used p \<longleftrightarrow> 0 < remaining p \<and> payment_id p \<notin> set used"

text \<open>
  The refund loop read along the list: the same provider calls, saves and stops as
  \<open>drain\<close>, by recursion on the payments left. The lemma \<open>drain_from_start\<close> shows
  that \<open>drain\<close> computes it when the payments' ids are distinct.
\<close>

fun walk :: "deps \<Rightarrow> Payment list \<Rightarrow> int \<Rightarrow> db \<Rightarrow> error option \<times> Payment list \<times> db" where
  "walk d [] balance store = (None, [], store)"
| "walk d (p # ps) balance store =
     (if 0 < remaining p then
        (case retrieveProvider d (payment_provider_id p) of
           Inl e \<Rightarrow> (Some e, p # ps, store)
         | Inr provider \<Rightarrow>
             (case provider_refundPayment provider p (min (remaining p) balance) of
                Inl e \<Rightarrow> (Some e, p # ps, store)
              | Inr data \<Rightarrow>
                  if 0 < balance - min (remaining p) balance
                  then (case walk d ps (balance - min (remaining p) balance)
                               (store\<lparr>payment_rows :=
                                        save_payment (refunded_by p data balance) (payment_rows store)\<rparr>) of
                          (e, ps', store') \<Rightarrow> (e, refunded_by p data balance # ps', store'))
                  else (None, refunded_by p data balance # ps,
                        store\<lparr>payment_rows :=
                                 save_payment (refunded_by p data balance) (payment_rows store)\<rparr>)))
      else (case walk d ps balance store of (e, ps', store') \<Rightarrow> (e, p # ps', store')))"

text \<open>
  What a call of a sequence asks for, and when it is made on a payment as stored:
  \<open>refundPayment\<close> fetches the rows itself, and the payment object handed to
  \<open>refundFromPayment\<close> is a row of the table.
\<close>

fun call_amount :: "refund_call \<Rightarrow> int" where
  "call_amount (RefundPayment payObjs amount reason note) = amount"
| "call_amount (RefundFromPayment payment amount reason note) = amount"

fun current_call :: "db \<Rightarrow> refund_call \<Rightarrow> bool" where
  "current_call store (RefundPayment payObjs amount reason note) = True"
| "current_call store (RefundFromPayment payment amount reason note) =
     (payment \<in> set (payment_rows store))"

section \<open>Example inputs\<close>

text \<open>Concrete collaborators and rows, used to instantiate the theorems below.\<close>

definition example_client :: stripe where
  "example_client =
     \<lparr>paymentIntents_retrieve = (\<lambda>i. Inr \<lparr>pi_id = i, pi_status = ''mystery''\<rparr>),
      paymentIntents_capture =
        (\<lambda>i. Inl \<lparr>err_code = Some ''payment_intent_unexpected_state'',
                    err_payment_intent = Some \<lparr>pi_id = i, pi_status = ''succeeded''\<rparr>\<rparr>)\<rparr>"

definition example_discount_deps :: discount_deps where
  "example_discount_deps =
     \<lparr>discountService_retrieve = (\<lambda>i. Inr ''rule_1''),
      addConditionResources = (\<lambda>i r t b s. (Inr (), s)),
      generateConditionId = (\<lambda>s. ''cond_new'')\<rparr>"

definition example_payload :: UpsertDiscountConditionInput where
  "example_payload =
     \<lparr>input_id = None, input_operator = Some ''in'',
      products = Some [], product_collections = None,
      product_types = Some [''type_1''], product_tags = Some [''tag_1'', ''tag_2''],
      customer_groups = None\<rparr>"

definition example_empty_payload :: UpsertDiscountConditionInput where
  "example_empty_payload =
     \<lparr>input_id = None, input_operator = Some ''in'',
      products = Some [], product_collections = None,
      product_types = None, product_tags = Some [],
      customer_groups = None\<rparr>"

definition example_condition :: "string \<Rightarrow> DiscountCondition" where
  "example_condition i =
     \<lparr>condition_id = i, condition_type = PRODUCTS, condition_operator = Some ''in'',
      discount_rule_id = ''rule_1'', condition_resources = []\<rparr>"

definition example_intent :: payment_intent where
  "example_intent = \<lparr>pi_id = ''pi_1'', pi_status = ''requires_capture''\<rparr>"

definition example_adapter :: adapter where
  "example_adapter =
     \<lparr>provider_createPayment = (\<lambda>context. Inr (SessionResponse example_intent None)),
      provider_createPaymentNew = (\<lambda>context. Inr (SessionResponse example_intent None)),
      provider_authorizePayment = (\<lambda>session context. Inr (AUTHORIZED, session_data session)),
      provider_capturePayment = StripeBase_capturePayment example_client,
      provider_refundPayment = (\<lambda>payment amount. Inr (payment_data payment))\<rparr>"

text \<open>A manual provider: every capability returns at once, whatever it is asked.\<close>

definition example_system_adapter :: adapter where
  "example_system_adapter =
     \<lparr>provider_createPayment = (\<lambda>context. Inr (LegacyData example_intent)),
      provider_createPaymentNew = (\<lambda>context. Inr (LegacyData example_intent)),
      provider_authorizePayment = (\<lambda>session context. Inr (AUTHORIZED, session_data session)),
      provider_capturePayment = (\<lambda>payment. Inr (payment_data payment)),
      provider_refundPayment = (\<lambda>payment amount. Inr (payment_data payment))\<rparr>"

definition example_deps :: "bool \<Rightarrow> deps" where
  "example_deps flag =
     \<lparr>container = [''pp_stripe'' \<mapsto> example_adapter,
                   ''systemPaymentProviderService'' \<mapsto> example_system_adapter],
      orderEditingEnabled = flag,
      customerService_update = (\<lambda>ident m store. (Inr (), store)),
      generateEntityId = (\<lambda>store. ''ps_new'')\<rparr>"

definition example_payment :: "string \<Rightarrow> int \<Rightarrow> int \<Rightarrow> timestamp option \<Rightarrow> Payment" where
  "example_payment ident amount refunded captured =
     \<lparr>payment_id = ident, payment_amount = amount, amount_refunded = refunded,
      captured_at = captured, payment_created_at = 0,
      payment_order_id = Some ''order_1'', payment_provider_id = ''stripe'',
      payment_data = example_intent\<rparr>"

definition example_manual_payment :: "string \<Rightarrow> int \<Rightarrow> int \<Rightarrow> timestamp option \<Rightarrow> Payment" where
  "example_manual_payment ident amount refunded captured =
     (example_payment ident amount refunded captured)\<lparr>payment_provider_id := ''system''\<rparr>"

text \<open>A captured payment of the manual provider, created and captured at the given time.\<close>

definition example_dated_payment :: "string \<Rightarrow> int \<Rightarrow> int \<Rightarrow> timestamp \<Rightarrow> Payment" where
  "example_dated_payment ident amount refunded created =
     (example_manual_payment ident amount refunded (Some created))\<lparr>payment_created_at := created\<rparr>"


definition example_session :: PaymentSession where
  "example_session =
     \<lparr>session_id = ''ps_1'', session_cart_id = Some ''cart_1'',
      session_provider_id = ''stripe'', session_data = example_intent,
      session_is_selected = None, session_status = PENDING,
      session_amount = None, payment_authorized_at = None\<rparr>"

definition example_input :: "string \<Rightarrow> PaymentSessionInput" where
  "example_input provider =
     \<lparr>input_provider_id = provider, input_cart = None, input_customer = None,
      input_currency_code = ''usd'', input_amount = 1000\<rparr>"

text \<open>A Stripe client whose capture fails for a reason of the card.\<close>

definition example_declining_client :: stripe where
  "example_declining_client =
     \<lparr>paymentIntents_retrieve = (\<lambda>i. Inr \<lparr>pi_id = i, pi_status = ''requires_capture''\<rparr>),
      paymentIntents_capture =
        (\<lambda>i. Inl \<lparr>err_code = Some ''card_declined'', err_payment_intent = None\<rparr>)\<rparr>"

definition example_declining_deps :: deps where
  "example_declining_deps =
     (example_deps False)
       \<lparr>container :=
          [''pp_stripe'' \<mapsto>
             example_adapter\<lparr>provider_capturePayment :=
                               StripeBase_capturePayment example_declining_client\<rparr>]\<rparr>"


definition example_store :: db where
  "example_store =
     \<lparr>payment_rows = [example_payment ''pay_1'' 1000 0 None], refund_rows = [],
      session_rows = [example_session]\<rparr>"


definition example_ledger :: "Payment list \<Rightarrow> db" where
  "example_ledger rows = \<lparr>payment_rows = rows, refund_rows = [], session_rows = []\<rparr>"

section \<open>Properties\<close>

subsection \<open>Termination of the refund loop\<close>

lemma find_position_Some:
  "find_position P xs = Some i \<Longrightarrow> i < length xs \<and> P (xs ! i) \<and> (\<forall>j<i. \<not> P (xs ! j))"
proof (induction xs arbitrary: i)
  case Nil
  then show ?case by simp
next
  case (Cons x xs)
  show ?case
  proof (cases "P x")
    case True
    with Cons.prems show ?thesis by simp
  next
    case False
    with Cons.prems obtain k where k: "find_position P xs = Some k" "i = Suc k"
      by auto
    from Cons.IH[OF k(1)] False k(2) show ?thesis
      by (auto simp: nth_Cons split: nat.splits)
  qed
qed

lemma find_position_None: "find_position P xs = None \<longleftrightarrow> (\<forall>x\<in>set xs. \<not> P x)"
  by (induction xs) auto

lemma map_id_update:
  "payment_id q = payment_id (ps ! i) \<Longrightarrow> map payment_id (ps[i := q]) = map payment_id ps"
  by (cases "i < length ps") (simp_all add: map_update list_update_same_conv list_update_beyond)

lemma length_filter_mono:
  "(\<And>x. x \<in> set xs \<Longrightarrow> P x \<Longrightarrow> Q x) \<Longrightarrow> length (filter P xs) \<le> length (filter Q xs)"
  by (induction xs) auto

lemma length_filter_strict:
  "x \<in> set xs \<Longrightarrow> Q x \<Longrightarrow> \<not> P x \<Longrightarrow> (\<And>y. y \<in> set xs \<Longrightarrow> P y \<Longrightarrow> Q y)
     \<Longrightarrow> length (filter P xs) < length (filter Q xs)"
proof (induction xs)
  case Nil
  then show ?case by simp
next
  case (Cons a xs)
  have le: "length (filter P xs) \<le> length (filter Q xs)"
    using Cons.prems(4) by (intro length_filter_mono) auto
  show ?case
  proof (cases "x = a")
    case True
    with Cons.prems le show ?thesis by simp
  next
    case False
    with Cons.prems have "length (filter P xs) < length (filter Q xs)"
      by (intro Cons.IH) auto
    with Cons.prems(4)[of a] show ?thesis by auto
  qed
qed

lemma unused_count_mono: "unused_count ps (used @ [x]) \<le> unused_count ps used"
  unfolding unused_count_def by (intro length_filter_mono) auto

lemma unused_count_less:
  assumes "i < length ps" "payment_id (ps ! i) \<notin> set used"
  shows "unused_count ps (used @ [payment_id (ps ! i)]) < unused_count ps used"
  unfolding unused_count_def
  using assms by (intro length_filter_strict[where x = "payment_id (ps ! i)"]) auto

lemma unused_count_update:
  "payment_id q = payment_id (ps ! i) \<Longrightarrow> unused_count (ps[i := q]) used = unused_count ps used"
  by (simp add: unused_count_def map_id_update)

lemma drain_measure_step:
  assumes q: "payment_id q = payment_id (ps ! i)"
    and nxt: "\<And>j. nxt = Some j \<Longrightarrow>
                j < length (ps[i := q]) \<and> payment_id (ps[i := q] ! j) \<notin> set (used @ [payment_id q])"
  shows "drain_measure (ps[i := q]) (used @ [payment_id q]) nxt < drain_measure ps used (Some i)"
proof -
  have flag: "(case nxt of None \<Rightarrow> 0
               | Some j \<Rightarrow> if j < length (ps[i := q])
                              \<and> payment_id (ps[i := q] ! j) \<notin> set (used @ [payment_id q])
                           then 0 else 1) = (0::nat)"
    using nxt by (cases nxt) auto
  have cnt: "unused_count (ps[i := q]) (used @ [payment_id q]) = unused_count ps (used @ [payment_id (ps ! i)])"
    using q by (simp add: unused_count_update)
  show ?thesis
  proof (cases "i < length ps \<and> payment_id (ps ! i) \<notin> set used")
    case True
    then have "unused_count ps (used @ [payment_id (ps ! i)]) < unused_count ps used"
      by (simp add: unused_count_less)
    with flag cnt show ?thesis
      unfolding drain_measure_def by simp
  next
    case False
    have "unused_count ps (used @ [payment_id (ps ! i)]) \<le> unused_count ps used"
      by (rule unused_count_mono)
    with flag cnt False show ?thesis
      unfolding drain_measure_def by auto
  qed
qed

termination drain
proof (relation "measure (\<lambda>(d, payments, balance, used, cur, store). drain_measure payments used cur)", goal_cases)
  case 1
  show ?case by simp
next
  case (2 d payments balance used i store paymentToRefund currentRefundable refundAmount
          provider data saved payments1 store1 balance1 used1)
  have sid: "payment_id saved = payment_id (payments ! i)"
    using 2 by simp
  have "drain_measure (payments[i := saved]) (used @ [payment_id saved])
          (if balance1 > 0
           then find_position
                  (\<lambda>payment. payment_amount payment - amount_refunded payment > 0
                             \<and> payment_id payment \<notin> set used1) payments1
           else None)
        < drain_measure payments used (Some i)"
  proof (rule drain_measure_step[OF sid])
    fix j
    assume "(if balance1 > 0
             then find_position
                    (\<lambda>payment. payment_amount payment - amount_refunded payment > 0
                               \<and> payment_id payment \<notin> set used1) payments1
             else None) = Some j"
    then have "find_position
                 (\<lambda>payment. payment_amount payment - amount_refunded payment > 0
                            \<and> payment_id payment \<notin> set used1) payments1 = Some j"
      by (simp split: if_splits)
    from find_position_Some[OF this] 2
    show "j < length (payments[i := saved])
            \<and> payment_id (payments[i := saved] ! j) \<notin> set (used @ [payment_id saved])"
      by simp
  qed
  with 2 show ?case by simp
qed


subsection \<open>Repository lookups\<close>

lemma find_Some_mem: "find P xs = Some y \<Longrightarrow> y \<in> set xs \<and> P y"
  by (induction xs) (auto split: if_splits)

lemma find_save_session:
  assumes "find (\<lambda>s. session_id s = session_id x) rows = Some y"
  shows "find (\<lambda>s. session_id s = session_id x) (save_session x rows) = Some x"
proof -
  from find_Some_mem[OF assms] have mem: "session_id x \<in> session_id ` set rows"
    by (metis image_eqI)
  have "find (\<lambda>s. session_id s = session_id x)
          (map (\<lambda>r. if session_id r = session_id x then x else r) rows) = Some x"
    using assms by (induction rows) (auto split: if_splits)
  with mem show ?thesis by (simp add: save_session_def)
qed

subsection \<open>The claims\<close>

text \<open>
  C8. \<open>StripeBase.getStatus\<close> maps every status string of the retrieved payment intent
  to a session status and never raises because of the status: \<open>requires_capture\<close> and
  \<open>succeeded\<close> give AUTHORIZED, \<open>requires_action\<close> gives REQUIRES_MORE, \<open>canceled\<close>
  gives CANCELED, and every other string, recognised or not, gives PENDING.
\<close>

theorem getStatus_total_mapping:
  assumes "paymentIntents_retrieve client (pi_id paymentData) = Inr paymentIntent"
  shows "getStatus client paymentData =
           Inr (if pi_status paymentIntent = ''requires_capture''
                   \<or> pi_status paymentIntent = ''succeeded'' then AUTHORIZED
                else if pi_status paymentIntent = ''requires_action'' then REQUIRES_MORE
                else if pi_status paymentIntent = ''canceled'' then CANCELED
                else PENDING)"
  using assms by (simp add: getStatus_def)

theorem getStatus_total_mapping_witness:
  "paymentIntents_retrieve example_client (pi_id \<lparr>pi_id = ''pi_1'', pi_status = ''processing''\<rparr>)
     = Inr \<lparr>pi_id = ''pi_1'', pi_status = ''mystery''\<rparr>
   \<and> getStatus example_client \<lparr>pi_id = ''pi_1'', pi_status = ''processing''\<rparr> = Inr PENDING"
proof -
  have h: "paymentIntents_retrieve example_client (pi_id \<lparr>pi_id = ''pi_1'', pi_status = ''processing''\<rparr>)
             = Inr \<lparr>pi_id = ''pi_1'', pi_status = ''mystery''\<rparr>"
    by (simp add: example_client_def)
  show ?thesis
    using h getStatus_total_mapping[OF h] by simp
qed

text \<open>
  C7. The condition type that \<open>resolveConditionType_\<close> resolves is that of the first list,
  in the order products, product_collections, product_types, product_tags,
  customer_groups, that is present and not empty, with that list as the resource ids; and
  \<open>upsertCondition\<close> fails with INVALID_DATA, leaving the store as it was, when none of
  the five lists is non-empty.
\<close>

theorem resolveConditionType_first_nonempty:
  "resolveConditionType data =
     (case find (\<lambda>(t, l). l \<noteq> None \<and> l \<noteq> Some [])
             [(PRODUCTS, products data),
              (PRODUCT_COLLECTIONS, product_collections data),
              (PRODUCT_TYPES, product_types data),
              (PRODUCT_TAGS, product_tags data),
              (CUSTOMER_GROUPS, customer_groups data)] of
        None \<Rightarrow> None
      | Some (t, l) \<Rightarrow> Some \<lparr>resolved_type = t, resource_ids = the l\<rparr>)
   \<and> ((\<forall>l \<in> {products data, product_collections data, product_types data,
                product_tags data, customer_groups data}. l = None \<or> l = Some [])
        \<longrightarrow> upsertCondition dd discountId data store = (Inl INVALID_DATA, store))"
proof -
  have hl: "\<And>l. hasLength l \<longleftrightarrow> l \<noteq> None \<and> l \<noteq> Some []"
    by (simp add: hasLength_def split: option.splits)
  have first: "resolveConditionType data =
     (case find (\<lambda>(t, l). l \<noteq> None \<and> l \<noteq> Some [])
             [(PRODUCTS, products data),
              (PRODUCT_COLLECTIONS, product_collections data),
              (PRODUCT_TYPES, product_types data),
              (PRODUCT_TAGS, product_tags data),
              (CUSTOMER_GROUPS, customer_groups data)] of
        None \<Rightarrow> None
      | Some (t, l) \<Rightarrow> Some \<lparr>resolved_type = t, resource_ids = the l\<rparr>)"
    unfolding resolveConditionType_def hl by simp
  have none: "upsertCondition dd discountId data store = (Inl INVALID_DATA, store)"
    if "\<forall>l \<in> {products data, product_collections data, product_types data,
                product_tags data, customer_groups data}. l = None \<or> l = Some []"
  proof -
    from that have "resolveConditionType data = None"
      unfolding resolveConditionType_def hl by auto
    then show ?thesis
      by (simp add: upsertCondition_def atomicPhase_handled_def error_code_def)
  qed
  from first none show ?thesis by blast
qed

theorem resolveConditionType_first_nonempty_witness:
  "resolveConditionType example_payload
     = Some \<lparr>resolved_type = PRODUCT_TYPES, resource_ids = [''type_1'']\<rparr>
   \<and> upsertCondition example_discount_deps ''disc_1'' example_empty_payload \<lparr>condition_rows = []\<rparr>
     = (Inl INVALID_DATA, \<lparr>condition_rows = []\<rparr>)"
  using resolveConditionType_first_nonempty[of example_payload example_discount_deps "''disc_1''" "\<lparr>condition_rows = []\<rparr>"]
    resolveConditionType_first_nonempty[of example_empty_payload example_discount_deps "''disc_1''" "\<lparr>condition_rows = []\<rparr>"]
  by (simp add: example_payload_def example_empty_payload_def)

text \<open>
  C10. \<open>DiscountConditionService.remove\<close> on an id that no condition of the store has
  returns normally and leaves the store unchanged; on the id of a stored condition it
  returns normally and the store no longer holds a condition with that id, the other rows
  staying as they were.
\<close>

theorem remove_condition_noop_or_removed:
  "(discountConditionId \<notin> condition_id ` set (condition_rows store)
      \<longrightarrow> remove_condition discountConditionId store = (Inr (), store))
   \<and> (discountConditionId \<in> condition_id ` set (condition_rows store)
      \<longrightarrow> remove_condition discountConditionId store =
            (Inr (), store\<lparr>condition_rows :=
                        filter (\<lambda>c. condition_id c \<noteq> discountConditionId) (condition_rows store)\<rparr>))"
proof (intro conjI impI)
  assume "discountConditionId \<notin> condition_id ` set (condition_rows store)"
  then have "find (\<lambda>c. condition_id c = discountConditionId) (condition_rows store) = None"
    by (auto simp: find_None_iff)
  then show "remove_condition discountConditionId store = (Inr (), store)"
    by (simp add: remove_condition_def atomicPhase_def)
next
  assume "discountConditionId \<in> condition_id ` set (condition_rows store)"
  then obtain c where c: "find (\<lambda>c. condition_id c = discountConditionId) (condition_rows store) = Some c"
    by (cases "find (\<lambda>c. condition_id c = discountConditionId) (condition_rows store)")
       (auto simp: find_None_iff)
  then have "condition_id c = discountConditionId"
    by (auto simp: find_Some_iff)
  with c show "remove_condition discountConditionId store =
            (Inr (), store\<lparr>condition_rows :=
                        filter (\<lambda>c. condition_id c \<noteq> discountConditionId) (condition_rows store)\<rparr>)"
    by (simp add: remove_condition_def atomicPhase_def)
qed

theorem remove_condition_noop_or_removed_witness:
  "remove_condition ''cond_9'' \<lparr>condition_rows = [example_condition ''cond_1'', example_condition ''cond_2'']\<rparr>
     = (Inr (), \<lparr>condition_rows = [example_condition ''cond_1'', example_condition ''cond_2'']\<rparr>)
   \<and> remove_condition ''cond_1'' \<lparr>condition_rows = [example_condition ''cond_1'', example_condition ''cond_2'']\<rparr>
     = (Inr (), \<lparr>condition_rows = [example_condition ''cond_2'']\<rparr>)"
  using remove_condition_noop_or_removed[of "''cond_9''" "\<lparr>condition_rows = [example_condition ''cond_1'', example_condition ''cond_2'']\<rparr>"]
    remove_condition_noop_or_removed[of "''cond_1''" "\<lparr>condition_rows = [example_condition ''cond_1'', example_condition ''cond_2'']\<rparr>"]
  by (simp add: example_condition_def)

text \<open>
  C5. For a session that exists in the store, with its provider resolved and the adapter's
  \<open>authorizePayment\<close> returning a status and data: \<open>authorizePayment\<close> saves the
  session with that status and data, and the saved row is what a later retrieval finds.
  \<open>payment_authorized_at\<close> becomes the current time when the order-editing flag is
  enabled and the returned status is AUTHORIZED, and keeps its value otherwise.
\<close>

theorem authorizePayment_persists_and_stamps:
  assumes "retrieveSession store (session_id paymentSession) = Inr session"
    and "retrieveProvider d (session_provider_id paymentSession) = Inr provider"
    and "provider_authorizePayment provider session context = Inr (status, data)"
  shows "authorizePayment d now paymentSession context store =
           (Inr (Some (session\<lparr>session_data := data, session_status := status,
                               payment_authorized_at :=
                                 (if orderEditingEnabled d \<and> status = AUTHORIZED then Some now
                                  else payment_authorized_at session)\<rparr>)),
            store\<lparr>session_rows :=
                     save_session
                       (session\<lparr>session_data := data, session_status := status,
                                 payment_authorized_at :=
                                 (if orderEditingEnabled d \<and> status = AUTHORIZED then Some now
                                  else payment_authorized_at session)\<rparr>)
                       (session_rows store)\<rparr>)
         \<and> retrieveSession (snd (authorizePayment d now paymentSession context store))
               (session_id paymentSession)
             = Inr (session\<lparr>session_data := data, session_status := status,
                             payment_authorized_at :=
                                 (if orderEditingEnabled d \<and> status = AUTHORIZED then Some now
                                  else payment_authorized_at session)\<rparr>)"
proof -
  let ?saved = "session\<lparr>session_data := data, session_status := status,
                        payment_authorized_at :=
                                 (if orderEditingEnabled d \<and> status = AUTHORIZED then Some now
                                  else payment_authorized_at session)\<rparr>"
  let ?store = "store\<lparr>session_rows := save_session ?saved (session_rows store)\<rparr>"
  from assms(1) have found:
    "find (\<lambda>s. session_id s = session_id paymentSession) (session_rows store) = Some session"
    by (simp add: retrieveSession_def split: option.splits)
  then have sid: "session_id session = session_id paymentSession"
    using find_Some_mem by fastforce
  have run: "authorizePayment d now paymentSession context store = (Inr (Some ?saved), ?store)"
    using assms by (simp add: authorizePayment_def atomicPhase_def Let_def)
  have "find (\<lambda>s. session_id s = session_id ?saved) (save_session ?saved (session_rows store))
          = Some ?saved"
    using found sid by (intro find_save_session[where y = session]) simp
  then have "retrieveSession ?store (session_id paymentSession) = Inr ?saved"
    using sid by (simp add: retrieveSession_def)
  with run show ?thesis by simp
qed

theorem authorizePayment_persists_and_stamps_witness:
  "retrieveSession \<lparr>payment_rows = [], refund_rows = [], session_rows = [example_session]\<rparr>
       (session_id example_session) = Inr example_session
   \<and> retrieveProvider (example_deps True) (session_provider_id example_session) = Inr example_adapter
   \<and> provider_authorizePayment example_adapter example_session [] = Inr (AUTHORIZED, example_intent)
   \<and> authorizePayment (example_deps True) 42 example_session []
        \<lparr>payment_rows = [], refund_rows = [], session_rows = [example_session]\<rparr>
      = (Inr (Some (example_session\<lparr>session_status := AUTHORIZED, payment_authorized_at := Some 42\<rparr>)),
         \<lparr>payment_rows = [], refund_rows = [],
          session_rows = [example_session\<lparr>session_status := AUTHORIZED,
                                           payment_authorized_at := Some 42\<rparr>]\<rparr>)"
proof -
  let ?store = "\<lparr>payment_rows = [], refund_rows = [], session_rows = [example_session]\<rparr>"
  have h1: "retrieveSession ?store (session_id example_session) = Inr example_session"
    by (simp add: retrieveSession_def)
  have h2: "retrieveProvider (example_deps True) (session_provider_id example_session) = Inr example_adapter"
    by (simp add: retrieveProvider_def container_get_def example_deps_def example_session_def)
  have h3: "provider_authorizePayment example_adapter example_session [] = Inr (AUTHORIZED, example_intent)"
    by (simp add: example_adapter_def example_session_def)
  have flag: "orderEditingEnabled (example_deps True)"
    by (simp add: example_deps_def)
  have same: "example_session\<lparr>session_data := example_intent\<rparr> = example_session"
    by (simp add: example_session_def)
  from authorizePayment_persists_and_stamps[OF h1 h2 h3, of 42] flag same h1 h2 h3
  show ?thesis
    by (simp add: save_session_def)
qed

text \<open>
  C6. With the Stripe adapter as the payment's provider and a capture call that fails with
  an error of the Stripe client, which carries the payment intent whenever its code is
  \<open>payment_intent_unexpected_state\<close>: when the code is that one and the intent's status
  is \<open>succeeded\<close>, the adapter returns that intent and the orchestrator stamps
  \<open>captured_at\<close> and saves the payment; every other failure is passed on unchanged and
  nothing is saved.
\<close>

theorem capturePayment_already_succeeded:
  assumes "retrievePayment store paymentObj_id = Inr payment"
    and "retrieveProvider d (payment_provider_id payment) = Inr provider"
    and "provider_capturePayment provider = StripeBase_capturePayment client"
    and "paymentIntents_capture client (pi_id (payment_data payment)) = Inl err"
    and "err_code err = Some ''payment_intent_unexpected_state'' \<longrightarrow> err_payment_intent err \<noteq> None"
  shows "(err_code err = Some ''payment_intent_unexpected_state''
            \<and> err_payment_intent err = Some intent \<and> pi_status intent = ''succeeded''
          \<longrightarrow> StripeBase_capturePayment client payment = Inr intent
              \<and> capturePayment d now paymentObj_id store =
                  (Inr (payment\<lparr>payment_data := intent, captured_at := Some now\<rparr>),
                   store\<lparr>payment_rows :=
                            save_payment (payment\<lparr>payment_data := intent, captured_at := Some now\<rparr>)
                              (payment_rows store)\<rparr>))
       \<and> (\<not> (err_code err = Some ''payment_intent_unexpected_state''
               \<and> (\<exists>carried. err_payment_intent err = Some carried
                      \<and> pi_status carried = ''succeeded''))
          \<longrightarrow> StripeBase_capturePayment client payment = Inl (Thrown err)
              \<and> capturePayment d now paymentObj_id store = (Inl (Thrown err), store))"
proof (intro conjI impI)
  assume a: "err_code err = Some ''payment_intent_unexpected_state''
               \<and> err_payment_intent err = Some intent \<and> pi_status intent = ''succeeded''"
  with assms(4) show ok: "StripeBase_capturePayment client payment = Inr intent"
    by (simp add: StripeBase_capturePayment_def)
  with assms(1-3) show "capturePayment d now paymentObj_id store =
                  (Inr (payment\<lparr>payment_data := intent, captured_at := Some now\<rparr>),
                   store\<lparr>payment_rows :=
                            save_payment (payment\<lparr>payment_data := intent, captured_at := Some now\<rparr>)
                              (payment_rows store)\<rparr>)"
    by (simp add: capturePayment_def atomicPhase_def Let_def)
next
  assume b: "\<not> (err_code err = Some ''payment_intent_unexpected_state''
               \<and> (\<exists>carried. err_payment_intent err = Some carried
                      \<and> pi_status carried = ''succeeded''))"
  with assms(4,5) show fails: "StripeBase_capturePayment client payment = Inl (Thrown err)"
    by (auto simp: StripeBase_capturePayment_def)
  with assms(1-3) show "capturePayment d now paymentObj_id store = (Inl (Thrown err), store)"
    by (simp add: capturePayment_def atomicPhase_def)
qed

theorem capturePayment_already_succeeded_witness:
  "retrievePayment \<lparr>payment_rows = [example_payment ''pay_1'' 1000 0 None], refund_rows = [],
                    session_rows = []\<rparr> ''pay_1''
     = Inr (example_payment ''pay_1'' 1000 0 None)
   \<and> retrieveProvider (example_deps False) ''stripe'' = Inr example_adapter
   \<and> provider_capturePayment example_adapter = StripeBase_capturePayment example_client
   \<and> paymentIntents_capture example_client ''pi_1''
     = Inl \<lparr>err_code = Some ''payment_intent_unexpected_state'',
            err_payment_intent = Some \<lparr>pi_id = ''pi_1'', pi_status = ''succeeded''\<rparr>\<rparr>
   \<and> capturePayment (example_deps False) 7 ''pay_1''
        \<lparr>payment_rows = [example_payment ''pay_1'' 1000 0 None], refund_rows = [],
         session_rows = []\<rparr>
     = (Inr ((example_payment ''pay_1'' 1000 0 None)
               \<lparr>payment_data := \<lparr>pi_id = ''pi_1'', pi_status = ''succeeded''\<rparr>,
                captured_at := Some 7\<rparr>),
        \<lparr>payment_rows = [(example_payment ''pay_1'' 1000 0 None)
                           \<lparr>payment_data := \<lparr>pi_id = ''pi_1'', pi_status = ''succeeded''\<rparr>,
                            captured_at := Some 7\<rparr>],
         refund_rows = [], session_rows = []\<rparr>)
   \<and> paymentIntents_capture example_declining_client ''pi_1''
     = Inl \<lparr>err_code = Some ''card_declined'', err_payment_intent = None\<rparr>
   \<and> capturePayment example_declining_deps 7 ''pay_1''
        \<lparr>payment_rows = [example_payment ''pay_1'' 1000 0 None], refund_rows = [],
         session_rows = []\<rparr>
     = (Inl (Thrown \<lparr>err_code = Some ''card_declined'', err_payment_intent = None\<rparr>),
        \<lparr>payment_rows = [example_payment ''pay_1'' 1000 0 None], refund_rows = [],
         session_rows = []\<rparr>)"
proof -
  let ?p = "example_payment ''pay_1'' 1000 0 None"
  let ?store = "\<lparr>payment_rows = [?p], refund_rows = [], session_rows = []\<rparr>"
  let ?err = "\<lparr>err_code = Some ''payment_intent_unexpected_state'',
               err_payment_intent = Some \<lparr>pi_id = ''pi_1'', pi_status = ''succeeded''\<rparr>\<rparr>"
  let ?declined = "\<lparr>err_code = Some ''card_declined'', err_payment_intent = None\<rparr>"
  let ?declining = "example_adapter\<lparr>provider_capturePayment :=
                                     StripeBase_capturePayment example_declining_client\<rparr>"
  have h1: "retrievePayment ?store ''pay_1'' = Inr ?p"
    by (simp add: retrievePayment_def example_payment_def)
  have h2: "retrieveProvider (example_deps False) (payment_provider_id ?p) = Inr example_adapter"
    by (simp add: retrieveProvider_def container_get_def example_deps_def example_payment_def)
  have h3: "provider_capturePayment example_adapter = StripeBase_capturePayment example_client"
    by (simp add: example_adapter_def)
  have h4: "paymentIntents_capture example_client (pi_id (payment_data ?p)) = Inl ?err"
    by (simp add: example_client_def example_payment_def example_intent_def)
  have h5: "err_code ?err = Some ''payment_intent_unexpected_state'' \<longrightarrow> err_payment_intent ?err \<noteq> None"
    by simp
  have g2: "retrieveProvider example_declining_deps (payment_provider_id ?p) = Inr ?declining"
    by (simp add: retrieveProvider_def container_get_def example_declining_deps_def
          example_deps_def example_payment_def)
  have g3: "provider_capturePayment ?declining = StripeBase_capturePayment example_declining_client"
    by simp
  have g4: "paymentIntents_capture example_declining_client (pi_id (payment_data ?p)) = Inl ?declined"
    by (simp add: example_declining_client_def)
  have g5: "err_code ?declined = Some ''payment_intent_unexpected_state''
              \<longrightarrow> err_payment_intent ?declined \<noteq> None"
    by simp
  from capturePayment_already_succeeded[OF h1 h2 h3 h4 h5,
         of "\<lparr>pi_id = ''pi_1'', pi_status = ''succeeded''\<rparr>" 7]
       capturePayment_already_succeeded[OF h1 g2 g3 g4 g5, of example_intent 7]
       h1 h2 h3 h4 g4
  show ?thesis
    by (simp add: save_payment_def example_payment_def example_intent_def)
qed

text \<open>
  C9. \<open>saveSession\<close> with an amount fails with INVALID_ARGUMENT and saves nothing when the
  order-editing flag is disabled; without an amount its result does not depend on the
  flag. \<open>createSessionNew\<close>, which always passes its input's amount, therefore fails with
  the flag disabled and leaves the store as it was; the error is INVALID_ARGUMENT whenever
  the provider is found, the adapter returns and the collected data are processed.
\<close>

theorem saveSession_amount_needs_flag:
  "(save_amount data \<noteq> None \<and> \<not> orderEditingEnabled d
      \<longrightarrow> saveSession d providerId data store = (Inl INVALID_ARGUMENT, store))
   \<and> (save_amount data = None
      \<longrightarrow> saveSession (d\<lparr>orderEditingEnabled := flag\<rparr>) providerId data store
          = saveSession d providerId data store)
   \<and> (\<not> orderEditingEnabled d
      \<longrightarrow> (\<exists>e. createSessionNew d sessionInput store = (Inl e, store))
          \<and> (\<forall>provider paymentResponse store1.
                retrieveProvider d (input_provider_id sessionInput) = Inr provider
                \<and> provider_createPaymentNew provider
                     \<lparr>ctx_cart = input_cart sessionInput,
                      ctx_amount = Some (input_amount sessionInput),
                      ctx_currency_code = Some (input_currency_code sessionInput),
                      ctx_collected_data = customerMetadata (input_customer sessionInput),
                      ctx_id = None,
                      ctx_customer = input_customer sessionInput\<rparr> = Inr paymentResponse
                \<and> processCollectedData d (customerIdOf (input_customer sessionInput))
                     paymentResponse store = (Inr (), store1)
                \<longrightarrow> createSessionNew d sessionInput store = (Inl INVALID_ARGUMENT, store)))"
proof (intro conjI impI allI)
  assume "save_amount data \<noteq> None \<and> \<not> orderEditingEnabled d"
  then show "saveSession d providerId data store = (Inl INVALID_ARGUMENT, store)"
    by (simp add: saveSession_def)
next
  assume "save_amount data = None"
  then show "saveSession (d\<lparr>orderEditingEnabled := flag\<rparr>) providerId data store
          = saveSession d providerId data store"
    by (simp add: saveSession_def)
next
  assume off: "\<not> orderEditingEnabled d"
  have guard: "\<And>s sd. saveSession d (input_provider_id sessionInput)
                   \<lparr>save_cartId = None, save_amount = Some (input_amount sessionInput),
                    save_sessionData = sd, save_isSelected = None, save_status = PENDING\<rparr> s
                 = (Inl INVALID_ARGUMENT, s)"
    using off by (simp add: saveSession_def)
  show "\<exists>e. createSessionNew d sessionInput store = (Inl e, store)"
    unfolding createSessionNew_def atomicPhase_def
    by (auto simp: guard Let_def split: sum.splits prod.splits)
  fix provider paymentResponse store1
  assume "retrieveProvider d (input_provider_id sessionInput) = Inr provider
                \<and> provider_createPaymentNew provider
                     \<lparr>ctx_cart = input_cart sessionInput,
                      ctx_amount = Some (input_amount sessionInput),
                      ctx_currency_code = Some (input_currency_code sessionInput),
                      ctx_collected_data = customerMetadata (input_customer sessionInput),
                      ctx_id = None,
                      ctx_customer = input_customer sessionInput\<rparr> = Inr paymentResponse
                \<and> processCollectedData d (customerIdOf (input_customer sessionInput))
                     paymentResponse store = (Inr (), store1)"
  then show "createSessionNew d sessionInput store = (Inl INVALID_ARGUMENT, store)"
    unfolding createSessionNew_def atomicPhase_def
    by (simp add: guard Let_def)
qed

theorem saveSession_amount_needs_flag_witness:
  "saveSession (example_deps False) ''stripe''
       \<lparr>save_cartId = None, save_amount = Some 1000, save_sessionData = example_intent,
        save_isSelected = None, save_status = PENDING\<rparr> example_store
     = (Inl INVALID_ARGUMENT, example_store)
   \<and> saveSession (example_deps True) ''stripe''
       \<lparr>save_cartId = Some ''cart_1'', save_amount = None, save_sessionData = example_intent,
        save_isSelected = None, save_status = PENDING\<rparr> example_store
     = saveSession (example_deps False) ''stripe''
       \<lparr>save_cartId = Some ''cart_1'', save_amount = None, save_sessionData = example_intent,
        save_isSelected = None, save_status = PENDING\<rparr> example_store
   \<and> createSessionNew (example_deps False) (example_input ''stripe'') example_store
     = (Inl INVALID_ARGUMENT, example_store)"
proof -
  have off: "\<not> orderEditingEnabled (example_deps False)"
    by (simp add: example_deps_def)
  have flip: "(example_deps False)\<lparr>orderEditingEnabled := True\<rparr> = example_deps True"
    by (simp add: example_deps_def)
  have h1: "retrieveProvider (example_deps False) (input_provider_id (example_input ''stripe''))
              = Inr example_adapter"
    by (simp add: retrieveProvider_def container_get_def example_deps_def example_input_def)
  have h2: "provider_createPaymentNew example_adapter
              \<lparr>ctx_cart = input_cart (example_input ''stripe''),
               ctx_amount = Some (input_amount (example_input ''stripe'')),
               ctx_currency_code = Some (input_currency_code (example_input ''stripe'')),
               ctx_collected_data = customerMetadata (input_customer (example_input ''stripe'')),
               ctx_id = None,
               ctx_customer = input_customer (example_input ''stripe'')\<rparr>
              = Inr (SessionResponse example_intent None)"
    by (simp add: example_adapter_def)
  have h3: "processCollectedData (example_deps False)
              (customerIdOf (input_customer (example_input ''stripe'')))
              (SessionResponse example_intent None) example_store = (Inr (), example_store)"
    by (simp add: processCollectedData_def)
  note t1 = saveSession_amount_needs_flag[of
      "\<lparr>save_cartId = None, save_amount = Some 1000, save_sessionData = example_intent,
        save_isSelected = None, save_status = PENDING\<rparr>"
      "example_deps False" "''stripe''" example_store True "example_input ''stripe''"]
  note t2 = saveSession_amount_needs_flag[of
      "\<lparr>save_cartId = Some ''cart_1'', save_amount = None, save_sessionData = example_intent,
        save_isSelected = None, save_status = PENDING\<rparr>"
      "example_deps False" "''stripe''" example_store True "example_input ''stripe''"]
  from t1 off have a: "saveSession (example_deps False) ''stripe''
       \<lparr>save_cartId = None, save_amount = Some 1000, save_sessionData = example_intent,
        save_isSelected = None, save_status = PENDING\<rparr> example_store
     = (Inl INVALID_ARGUMENT, example_store)"
    by simp
  from t2 flip have b: "saveSession (example_deps True) ''stripe''
       \<lparr>save_cartId = Some ''cart_1'', save_amount = None, save_sessionData = example_intent,
        save_isSelected = None, save_status = PENDING\<rparr> example_store
     = saveSession (example_deps False) ''stripe''
       \<lparr>save_cartId = Some ''cart_1'', save_amount = None, save_sessionData = example_intent,
        save_isSelected = None, save_status = PENDING\<rparr> example_store"
    by simp
  from t1 off h1 h2 h3
  have c: "createSessionNew (example_deps False) (example_input ''stripe'') example_store
             = (Inl INVALID_ARGUMENT, example_store)"
    by blast
  from a b c show ?thesis by simp
qed



subsection \<open>The refund loop\<close>

lemma reduce_refundable:
  "foldl (\<lambda>(order_id, acc) next.
            (payment_order_id next,
             if captured_at next \<noteq> None
             then acc + (payment_amount next - amount_refunded next)
             else acc)) (oid, a) ps
   = (if ps = [] then oid else payment_order_id (last ps),
      a + sum_list (map (\<lambda>p. payment_amount p - amount_refunded p)
                      (filter (\<lambda>p. captured_at p \<noteq> None) ps)))"
  by (induction ps arbitrary: oid a) auto

lemma rows_ok_save:
  "rows_ok rows \<Longrightarrow> amount_refunded p \<le> payment_amount p \<Longrightarrow> rows_ok (save_payment p rows)"
  by (auto simp: rows_ok_def save_payment_def list_all_iff)

lemma drain_step:
  "drain d ps balance used (Some i) store =
     (case retrieveProvider d (payment_provider_id (ps ! i)) of
        Inl e \<Rightarrow> (Some e, ps, store)
      | Inr provider \<Rightarrow>
          (case provider_refundPayment provider (ps ! i) (min (remaining (ps ! i)) balance) of
             Inl e \<Rightarrow> (Some e, ps, store)
           | Inr data \<Rightarrow>
               drain d (ps[i := refunded_by (ps ! i) data balance])
                 (balance - min (remaining (ps ! i)) balance)
                 (used @ [payment_id (refunded_by (ps ! i) data balance)])
                 (if 0 < balance - min (remaining (ps ! i)) balance
                  then find_position
                         (unused_refundable (used @ [payment_id (refunded_by (ps ! i) data balance)]))
                         (ps[i := refunded_by (ps ! i) data balance])
                  else None)
                 (store\<lparr>payment_rows :=
                          save_payment (refunded_by (ps ! i) data balance) (payment_rows store)\<rparr>)))"
  unfolding remaining_def refunded_by_def unused_refundable_def
  by (simp only: drain.simps(2) Let_def)

declare drain.simps(2) [simp del]

lemma refunded_by_simps [simp]:
  "payment_id (refunded_by p data b) = payment_id p"
  "payment_amount (refunded_by p data b) = payment_amount p"
  "captured_at (refunded_by p data b) = captured_at p"
  "amount_refunded (refunded_by p data b) = amount_refunded p + min (remaining p) b"
  by (simp_all add: refunded_by_def)

lemma drain_induct [consumes 0, case_names Done Step]:
  assumes "\<And>ps balance used (store :: db). Q ps balance used None store"
    and "\<And>ps balance used i (store :: db).
           (\<And>provider data.
              retrieveProvider d (payment_provider_id (ps ! i)) = Inr provider \<Longrightarrow>
              provider_refundPayment provider (ps ! i) (min (remaining (ps ! i)) balance) = Inr data \<Longrightarrow>
              Q (ps[i := refunded_by (ps ! i) data balance])
                (balance - min (remaining (ps ! i)) balance)
                (used @ [payment_id (refunded_by (ps ! i) data balance)])
                (if 0 < balance - min (remaining (ps ! i)) balance
                 then find_position
                        (unused_refundable (used @ [payment_id (refunded_by (ps ! i) data balance)]))
                        (ps[i := refunded_by (ps ! i) data balance])
                 else None)
                (store\<lparr>payment_rows :=
                         save_payment (refunded_by (ps ! i) data balance) (payment_rows store)\<rparr>))
           \<Longrightarrow> Q ps balance used (Some i) store"
  shows "Q ps balance used cur store"
proof -
  have "d' = d \<Longrightarrow> Q ps balance used cur store" for d'
  proof (induction d' ps balance used cur store rule: drain.induct)
    case (1 d' payments balance used store)
    show ?case by (rule assms(1))
  next
    case (2 d' payments balance used i store)
    show ?case
    proof (rule assms(2))
      fix provider data
      assume p: "retrieveProvider d (payment_provider_id (payments ! i)) = Inr provider"
        and r: "provider_refundPayment provider (payments ! i) (min (remaining (payments ! i)) balance) = Inr data"
      from p "2.prems" have p': "retrieveProvider d' (payment_provider_id (payments ! i)) = Inr provider"
        by simp
      from r have r': "provider_refundPayment provider (payments ! i)
                         (min (payment_amount (payments ! i) - amount_refunded (payments ! i)) balance)
                       = Inr data"
        by (simp add: remaining_def)
      from "2.IH"[OF refl refl refl p' r' refl refl refl refl refl "2.prems"]
      show "Q (payments[i := refunded_by (payments ! i) data balance])
                  (balance - min (remaining (payments ! i)) balance)
                  (used @ [payment_id (refunded_by (payments ! i) data balance)])
                  (if 0 < balance - min (remaining (payments ! i)) balance
                   then find_position
                          (unused_refundable (used @ [payment_id (refunded_by (payments ! i) data balance)]))
                          (payments[i := refunded_by (payments ! i) data balance])
                   else None)
                  (store\<lparr>payment_rows :=
                           save_payment (refunded_by (payments ! i) data balance) (payment_rows store)\<rparr>)"
        unfolding remaining_def refunded_by_def unused_refundable_def .
    qed
  qed
  then show ?thesis by simp
qed

lemma retrieveProvider_error: "retrieveProvider d i = Inl e \<Longrightarrow> e = NOT_FOUND"
  by (auto simp: retrieveProvider_def split: sum.splits if_splits)


lemma refunded_by_ok: "amount_refunded (refunded_by p data b) \<le> payment_amount (refunded_by p data b)"
  by (simp add: remaining_def)

lemma drain_rows_ok:
  "rows_ok (payment_rows store) \<Longrightarrow> rows_ok (payment_rows (snd (snd (drain d ps b used cur store))))"
proof (induction ps b used cur store rule: drain_induct[where d = d])
  case (Done ps balance used store)
  then show ?case by simp
next
  case (Step ps balance used i store)
  show ?case
  proof (cases "retrieveProvider d (payment_provider_id (ps ! i))")
    case (Inl e')
    with Step.prems show ?thesis by (simp add: drain_step)
  next
    case prov: (Inr provider)
    show ?thesis
    proof (cases "provider_refundPayment provider (ps ! i) (min (remaining (ps ! i)) balance)")
      case (Inl t)
      with prov Step.prems show ?thesis by (simp add: drain_step)
    next
      case (Inr data)
      have "rows_ok (payment_rows (store\<lparr>payment_rows :=
               save_payment (refunded_by (ps ! i) data balance) (payment_rows store)\<rparr>))"
        using Step.prems by (simp add: rows_ok_save remaining_def)
      from Step.IH[OF prov Inr this] show ?thesis
        by (simp only: drain_step prov Inr sum.case)
    qed
  qed
qed

lemma drain_other_tables:
  "refund_rows (snd (snd (drain d ps b used cur store))) = refund_rows store
   \<and> session_rows (snd (snd (drain d ps b used cur store))) = session_rows store"
proof (induction ps b used cur store rule: drain_induct[where d = d])
  case (Done ps balance used store)
  then show ?case by simp
next
  case (Step ps balance used i store)
  show ?case
  proof (cases "retrieveProvider d (payment_provider_id (ps ! i))")
    case (Inl e')
    then show ?thesis by (simp add: drain_step)
  next
    case prov: (Inr provider)
    show ?thesis
    proof (cases "provider_refundPayment provider (ps ! i) (min (remaining (ps ! i)) balance)")
      case (Inl t)
      with prov show ?thesis by (simp add: drain_step)
    next
      case (Inr data)
      from Step.IH[OF prov Inr] show ?thesis
        by (simp only: drain_step prov Inr sum.case) simp
    qed
  qed
qed

lemma refundPayment_work_unfold:
  "refundPayment_work d payObjs amount reason note store =
     (let payments = listPayments store (map payment_id payObjs)
      in if sum_list (map (\<lambda>p. payment_amount p - amount_refunded p)
                        (filter (\<lambda>p. captured_at p \<noteq> None) payments)) < amount
         then (Inl NOT_ALLOWED, store)
         else
           (case drain d payments amount []
                   (find_position (unused_refundable []) payments) store of
              (Some e, _, store1) \<Rightarrow> (Inl e, store1)
            | (None, _, store1) \<Rightarrow>
                let created = \<lparr>refund_order_id =
                                 (if payments = [] then None else payment_order_id (last payments)),
                               refund_payment_id = None,
                               refund_amount = amount,
                               refund_reason = reason,
                               refund_note = note\<rparr>
                in (Inr created, store1\<lparr>refund_rows := refund_rows store1 @ [created]\<rparr>)))"
proof -
  have p: "unused_refundable [] = (\<lambda>payment. payment_amount payment - amount_refunded payment > 0)"
    by (simp add: unused_refundable_def remaining_def fun_eq_iff)
  show ?thesis
    unfolding refundPayment_work_def reduce_refundable p
    by (simp add: Let_def)
qed


lemma find_position_append_skip:
  "\<forall>x\<in>set pre. \<not> P x \<Longrightarrow> find_position P (pre @ suf) = map_option (\<lambda>i. length pre + i) (find_position P suf)"
proof (induction pre)
  case Nil
  show ?case by (cases "find_position P suf") simp_all
next
  case (Cons a pre)
  then show ?case by (cases "find_position P suf") simp_all
qed

lemma drain_walk:
  assumes "distinct (map payment_id (pre @ suf))"
    and "set used \<subseteq> payment_id ` set pre"
    and "\<forall>q\<in>set pre. \<not> unused_refundable used q"
  shows "drain d (pre @ suf) balance used (find_position (unused_refundable used) (pre @ suf)) store
           = (case walk d suf balance store of (e, suf', store') \<Rightarrow> (e, pre @ suf', store'))"
  using assms
proof (induction suf arbitrary: pre balance used store)
  case Nil
  then have "find_position (unused_refundable used) pre = None"
    by (simp add: find_position_None)
  then show ?case by simp
next
  case (Cons p ps)
  have fresh: "payment_id p \<notin> set used"
    using Cons.prems(1,2) by auto
  show ?case
  proof (cases "0 < remaining p")
    case False
    have "drain d ((pre @ [p]) @ ps) balance used
            (find_position (unused_refundable used) ((pre @ [p]) @ ps)) store
          = (case walk d ps balance store of (e, suf', store') \<Rightarrow> (e, (pre @ [p]) @ suf', store'))"
      using Cons.prems False
      by (intro Cons.IH) (auto simp: unused_refundable_def)
    with False show ?thesis
      by (simp split: prod.splits)
  next
    case True
    then have here: "find_position (unused_refundable used) (pre @ p # ps) = Some (length pre)"
      using Cons.prems(3) fresh
      by (simp add: find_position_append_skip unused_refundable_def)
    show ?thesis
    proof (cases "retrieveProvider d (payment_provider_id p)")
      case (Inl e)
      with True here show ?thesis by (simp add: drain_step)
    next
      case prov: (Inr provider)
      show ?thesis
      proof (cases "provider_refundPayment provider p (min (remaining p) balance)")
        case (Inl t)
        with prov True here show ?thesis by (simp add: drain_step)
      next
        case (Inr data)
        let ?saved = "refunded_by p data balance"
        let ?store1 = "store\<lparr>payment_rows := save_payment ?saved (payment_rows store)\<rparr>"
        let ?balance1 = "balance - min (remaining p) balance"
        let ?used1 = "used @ [payment_id p]"
        have step: "drain d (pre @ p # ps) balance used (Some (length pre)) store
                      = drain d (pre @ ?saved # ps) ?balance1 ?used1
                          (if 0 < ?balance1
                           then find_position (unused_refundable ?used1) (pre @ ?saved # ps)
                           else None) ?store1"
          using prov Inr by (simp add: drain_step)
        show ?thesis
        proof (cases "0 < ?balance1")
          case more: True
          have "drain d ((pre @ [?saved]) @ ps) ?balance1 ?used1
                  (find_position (unused_refundable ?used1) ((pre @ [?saved]) @ ps)) ?store1
                = (case walk d ps ?balance1 ?store1 of
                     (e, suf', store') \<Rightarrow> (e, (pre @ [?saved]) @ suf', store'))"
          proof (rule Cons.IH)
            show "distinct (map payment_id ((pre @ [?saved]) @ ps))"
              using Cons.prems(1) by simp
            show "set ?used1 \<subseteq> payment_id ` set (pre @ [?saved])"
              using Cons.prems(2) by auto
            show "\<forall>q\<in>set (pre @ [?saved]). \<not> unused_refundable ?used1 q"
              using Cons.prems(3) by (auto simp: unused_refundable_def)
          qed
          with step here more True prov Inr show ?thesis
            by (simp split: prod.splits)
        next
          case stop: False
          with step here True prov Inr show ?thesis
            by simp
        qed
      qed
    qed
  qed
qed

lemma greedy_increments_length [simp]: "length (spec_greedy_increments rs b) = length rs"
  by (induction rs arbitrary: b) auto

lemma greedy_increments_exhausted: "b \<le> 0 \<Longrightarrow> spec_greedy_increments rs b = replicate (length rs) 0"
  by (induction rs) auto

lemma sum_positive_nonneg: "0 \<le> sum_list (filter (\<lambda>r. 0 < r) (rs :: int list))"
  by (induction rs) auto

lemma greedy_increments_sum:
  "0 \<le> b \<Longrightarrow> b \<le> sum_list (filter (\<lambda>r. 0 < r) rs) \<Longrightarrow> sum_list (spec_greedy_increments rs b) = b"
proof (induction rs arbitrary: b)
  case Nil
  then show ?case by simp
next
  case (Cons r rs)
  show ?case
  proof (cases "0 < r \<and> 0 < b")
    case True
    have "0 \<le> b - min r b" by simp
    moreover have "b - min r b \<le> sum_list (filter (\<lambda>r. 0 < r) rs)"
      using Cons.prems True sum_positive_nonneg[of rs] by (simp add: min_def split: if_splits)
    ultimately have "sum_list (spec_greedy_increments rs (b - min r b)) = b - min r b"
      by (rule Cons.IH)
    with True show ?thesis by simp
  next
    case False
    have "b \<le> sum_list (filter (\<lambda>r. 0 < r) rs)"
      using Cons.prems False sum_positive_nonneg[of rs] by (auto split: if_splits)
    with Cons.prems(1) have "sum_list (spec_greedy_increments rs b) = b"
      by (rule Cons.IH)
    with False show ?thesis by auto
  qed
qed

lemma captured_balance_le_positive_balance:
  "sum_list (map remaining (filter (\<lambda>p. captured_at p \<noteq> None) ps))
     \<le> sum_list (filter (\<lambda>r. 0 < r) (map remaining ps))"
  by (induction ps) auto

lemma walk_Cons_skip:
  assumes "\<not> 0 < remaining p"
  shows "walk d (p # ps) b store
           = (case walk d ps b store of (e, ps', store') \<Rightarrow> (e, p # ps', store'))"
  by (subst walk.simps(2)) (simp only: assms if_False)

lemma walk_Cons_provider_missing:
  assumes "0 < remaining p" "retrieveProvider d (payment_provider_id p) = Inl e"
  shows "walk d (p # ps) b store = (Some e, p # ps, store)"
  by (subst walk.simps(2)) (simp only: assms if_True sum.case)

lemma walk_Cons_refund_failed:
  assumes "0 < remaining p" "retrieveProvider d (payment_provider_id p) = Inr provider"
    "provider_refundPayment provider p (min (remaining p) b) = Inl t"
  shows "walk d (p # ps) b store = (Some t, p # ps, store)"
  by (subst walk.simps(2)) (simp only: assms if_True sum.case)

lemma walk_Cons_refund_more:
  assumes "0 < remaining p" "retrieveProvider d (payment_provider_id p) = Inr provider"
    "provider_refundPayment provider p (min (remaining p) b) = Inr data"
    "0 < b - min (remaining p) b"
  shows "walk d (p # ps) b store
       = (case walk d ps (b - min (remaining p) b)
                 (store\<lparr>payment_rows :=
                          save_payment (refunded_by p data b) (payment_rows store)\<rparr>) of
            (e, ps', store') \<Rightarrow> (e, refunded_by p data b # ps', store'))"
  by (subst walk.simps(2)) (simp only: assms if_True sum.case)

lemma walk_Cons_refund_stop:
  assumes "0 < remaining p" "retrieveProvider d (payment_provider_id p) = Inr provider"
    "provider_refundPayment provider p (min (remaining p) b) = Inr data"
    "\<not> 0 < b - min (remaining p) b"
  shows "walk d (p # ps) b store
       = (None, refunded_by p data b # ps,
          store\<lparr>payment_rows := save_payment (refunded_by p data b) (payment_rows store)\<rparr>)"
  by (subst walk.simps(2)) (simp only: assms if_True if_False sum.case)

declare walk.simps(2) [simp del]

lemma walk_Cons_cases [consumes 1, case_names Skip Missing Failed More Stop]:
  assumes "walk d (p # ps) b store = (e, ps', store')"
    and "\<And>ps''. \<not> 0 < remaining p \<Longrightarrow> walk d ps b store = (e, ps'', store')
            \<Longrightarrow> ps' = p # ps'' \<Longrightarrow> R"
    and "\<And>err. 0 < remaining p \<Longrightarrow> retrieveProvider d (payment_provider_id p) = Inl err
            \<Longrightarrow> e = Some err \<Longrightarrow> ps' = p # ps \<Longrightarrow> store' = store \<Longrightarrow> R"
    and "\<And>provider t. 0 < remaining p \<Longrightarrow> retrieveProvider d (payment_provider_id p) = Inr provider
            \<Longrightarrow> provider_refundPayment provider p (min (remaining p) b) = Inl t
            \<Longrightarrow> e = Some t \<Longrightarrow> ps' = p # ps \<Longrightarrow> store' = store \<Longrightarrow> R"
    and "\<And>provider data ps''. 0 < remaining p
            \<Longrightarrow> retrieveProvider d (payment_provider_id p) = Inr provider
            \<Longrightarrow> provider_refundPayment provider p (min (remaining p) b) = Inr data
            \<Longrightarrow> 0 < b - min (remaining p) b
            \<Longrightarrow> walk d ps (b - min (remaining p) b)
                  (store\<lparr>payment_rows :=
                           save_payment (refunded_by p data b) (payment_rows store)\<rparr>)
                = (e, ps'', store')
            \<Longrightarrow> ps' = refunded_by p data b # ps'' \<Longrightarrow> R"
    and "\<And>provider data. 0 < remaining p
            \<Longrightarrow> retrieveProvider d (payment_provider_id p) = Inr provider
            \<Longrightarrow> provider_refundPayment provider p (min (remaining p) b) = Inr data
            \<Longrightarrow> \<not> 0 < b - min (remaining p) b
            \<Longrightarrow> e = None \<Longrightarrow> ps' = refunded_by p data b # ps
            \<Longrightarrow> store' = store\<lparr>payment_rows :=
                                   save_payment (refunded_by p data b) (payment_rows store)\<rparr>
            \<Longrightarrow> R"
  shows R
proof (cases "0 < remaining p")
  case False
  obtain e2 ps2 s2 where w: "walk d ps b store = (e2, ps2, s2)"
    by (metis prod_cases3)
  with assms(1) False have "e2 = e" "ps' = p # ps2" "s2 = store'"
    by (simp_all add: walk_Cons_skip)
  with w False show R by (intro assms(2)[of ps2]) simp_all
next
  case True
  show R
  proof (cases "retrieveProvider d (payment_provider_id p)")
    case (Inl err)
    with assms(1) True show R
      by (intro assms(3)[of err]) (simp_all add: walk_Cons_provider_missing)
  next
    case prov: (Inr provider)
    show R
    proof (cases "provider_refundPayment provider p (min (remaining p) b)")
      case (Inl t)
      with assms(1) True prov show R
        by (intro assms(4)[of provider t]) (simp_all add: walk_Cons_refund_failed)
    next
      case (Inr data)
      show R
      proof (cases "0 < b - min (remaining p) b")
        case more: True
        obtain e2 ps2 s2 where w: "walk d ps (b - min (remaining p) b)
                  (store\<lparr>payment_rows :=
                           save_payment (refunded_by p data b) (payment_rows store)\<rparr>)
                = (e2, ps2, s2)"
          by (metis prod_cases3)
        from assms(1) have "(e2, refunded_by p data b # ps2, s2) = (e, ps', store')"
          by (simp only: walk_Cons_refund_more[OF True prov Inr more] w prod.case)
        then have "e2 = e" "ps' = refunded_by p data b # ps2" "s2 = store'"
          by simp_all
        with w show R by (intro assms(5)[OF True prov Inr more, of ps2]) simp_all
      next
        case stop: False
        from assms(1) have "(None, refunded_by p data b # ps,
                store\<lparr>payment_rows := save_payment (refunded_by p data b) (payment_rows store)\<rparr>)
              = (e, ps', store')"
          by (simp only: walk_Cons_refund_stop[OF True prov Inr stop])
        then show R by (intro assms(6)[OF True prov Inr stop]) simp_all
      qed
    qed
  qed
qed

lemma walk_ids:
  "walk d ps b store = (e, ps', store') \<Longrightarrow> map payment_id ps' = map payment_id ps"
proof (induction ps arbitrary: b store e ps' store')
  case Nil
  then show ?case by simp
next
  case (Cons p ps)
  from Cons.prems show ?case
    by (cases rule: walk_Cons_cases) (auto dest: Cons.IH)
qed

lemma zero_increments:
  "map2 (+) (map amount_refunded ps) (replicate (length ps) 0) = map amount_refunded ps"
  by (induction ps) auto

lemma walk_increments:
  "walk d ps b store = (None, ps', store') \<Longrightarrow> 0 \<le> b \<Longrightarrow>
     map amount_refunded ps'
       = map2 (+) (map amount_refunded ps) (spec_greedy_increments (map remaining ps) b)"
proof (induction ps arbitrary: b store ps' store')
  case Nil
  then show ?case by simp
next
  case (Cons p ps)
  from Cons.prems(1) show ?case
  proof (cases rule: walk_Cons_cases)
    case (Skip ps'')
    from Cons.IH[OF Skip(2) Cons.prems(2)] Skip(1,3) show ?thesis by simp
  next
    case (Missing err)
    then show ?thesis by simp
  next
    case (Failed provider t)
    then show ?thesis by simp
  next
    case (More provider data ps'')
    have "0 \<le> b - min (remaining p) b" by simp
    from Cons.IH[OF More(5) this] More(1,4,6) show ?thesis
      by (auto simp: min_def split: if_splits)
  next
    case (Stop provider data)
    from Stop(4) Cons.prems(2) have z: "b - min (remaining p) b = 0"
      by (simp add: min_def split: if_splits)
    with Stop(1,6) Cons.prems(2) show ?thesis
      by (auto simp: greedy_increments_exhausted zero_increments min_def split: if_splits)
  qed
qed

lemma row_by_id:
  "distinct (map payment_id rows) \<Longrightarrow> p \<in> set rows \<Longrightarrow> r \<in> set rows
     \<Longrightarrow> payment_id r = payment_id p \<Longrightarrow> r = p"
  by (meson distinct_map inj_onD)

lemma find_row:
  "distinct (map payment_id rows) \<Longrightarrow> p \<in> set rows
     \<Longrightarrow> find (\<lambda>r. payment_id r = payment_id p) rows = Some p"
proof (induction rows)
  case Nil
  then show ?case by simp
next
  case (Cons a rows)
  then show ?case by (auto simp: image_iff)
qed

lemma save_payment_present:
  "payment_id q \<in> payment_id ` set rows \<Longrightarrow>
     save_payment q rows = map (\<lambda>r. if payment_id r = payment_id q then q else r) rows"
  by (simp add: save_payment_def)

lemma save_payment_ids:
  "payment_id q \<in> payment_id ` set rows \<Longrightarrow>
     map payment_id (save_payment q rows) = map payment_id rows"
  by (simp add: save_payment_present)

lemma save_payment_mem:
  "payment_id q \<in> payment_id ` set rows \<Longrightarrow> q \<in> set (save_payment q rows)"
  by (auto simp: save_payment_present image_iff)

lemma save_payment_keeps:
  "r \<in> set rows \<Longrightarrow> payment_id r \<noteq> payment_id q \<Longrightarrow> r \<in> set (save_payment q rows)"
  by (auto simp: save_payment_def image_iff)

lemma save_payment_nth:
  assumes "distinct (map payment_id rows)" "p \<in> set rows" "payment_id q = payment_id p"
    "i < length rows"
  shows "save_payment q rows ! i = (if rows ! i = p then q else rows ! i)"
proof -
  have "payment_id q \<in> payment_id ` set rows"
    using assms(2,3) by force
  moreover have "payment_id (rows ! i) = payment_id q \<longleftrightarrow> rows ! i = p"
    using row_by_id[OF assms(1,2), of "rows ! i"] assms(3,4) by auto
  ultimately show ?thesis
    using assms(4) by (simp add: save_payment_present)
qed

lemma walk_rows:
  assumes "walk d ps b store = (e, ps', store')"
    and "distinct (map payment_id (payment_rows store))"
    and "set ps \<subseteq> set (payment_rows store)"
    and "distinct (map payment_id ps)"
  shows "map payment_id (payment_rows store') = map payment_id (payment_rows store)
       \<and> set ps' \<subseteq> set (payment_rows store')
       \<and> (\<forall>r\<in>set (payment_rows store).
             payment_id r \<notin> payment_id ` set ps \<longrightarrow> r \<in> set (payment_rows store'))
       \<and> (0 \<le> b \<longrightarrow> (\<forall>i<length (payment_rows store).
             amount_refunded (payment_rows store ! i) \<le> amount_refunded (payment_rows store' ! i)))"
  using assms
proof (induction ps arbitrary: b store e ps' store')
  case Nil
  then show ?case by simp
next
  case (Cons p ps)
  have p_row: "p \<in> set (payment_rows store)"
    using Cons.prems(3) by simp
  have rest_rows: "set ps \<subseteq> set (payment_rows store)"
    using Cons.prems(3) by simp
  have rest_distinct: "distinct (map payment_id ps)"
    using Cons.prems(4) by simp
  have p_new: "payment_id p \<notin> payment_id ` set ps"
    using Cons.prems(4) by simp
  then have p_other: "\<And>q. q \<in> set ps \<Longrightarrow> payment_id q \<noteq> payment_id p"
    by (metis image_eqI)
  have saved_rows:
    "map payment_id (save_payment (refunded_by p data b) (payment_rows store))
       = map payment_id (payment_rows store)
     \<and> refunded_by p data b \<in> set (save_payment (refunded_by p data b) (payment_rows store))
     \<and> set ps \<subseteq> set (save_payment (refunded_by p data b) (payment_rows store))
     \<and> (\<forall>r\<in>set (payment_rows store). payment_id r \<notin> payment_id ` set (p # ps)
           \<longrightarrow> r \<in> set (save_payment (refunded_by p data b) (payment_rows store)))
     \<and> (0 < remaining p \<and> 0 \<le> b \<longrightarrow> (\<forall>i<length (payment_rows store).
           amount_refunded (payment_rows store ! i)
             \<le> amount_refunded (save_payment (refunded_by p data b) (payment_rows store) ! i)))"
    for data
  proof -
    have present: "payment_id (refunded_by p data b) \<in> payment_id ` set (payment_rows store)"
      using p_row by force
    have keep: "set ps \<subseteq> set (save_payment (refunded_by p data b) (payment_rows store))"
    proof
      fix q assume q: "q \<in> set ps"
      with p_other have "payment_id q \<noteq> payment_id (refunded_by p data b)" by simp
      with q rest_rows show "q \<in> set (save_payment (refunded_by p data b) (payment_rows store))"
        by (intro save_payment_keeps) auto
    qed
    have others: "\<forall>r\<in>set (payment_rows store). payment_id r \<notin> payment_id ` set (p # ps)
           \<longrightarrow> r \<in> set (save_payment (refunded_by p data b) (payment_rows store))"
      by (auto intro!: save_payment_keeps)
    have grows: "amount_refunded (payment_rows store ! i)
             \<le> amount_refunded (save_payment (refunded_by p data b) (payment_rows store) ! i)"
      if "0 < remaining p" "0 \<le> b" "i < length (payment_rows store)" for i
      using that save_payment_nth[OF Cons.prems(2) p_row, of "refunded_by p data b" i]
      by auto
    from present keep others grows show ?thesis
      by (simp add: save_payment_ids save_payment_mem)
  qed
  from Cons.prems(1) show ?case
  proof (cases rule: walk_Cons_cases)
    case (Skip ps'')
    from Cons.IH[OF Skip(2) Cons.prems(2) rest_rows rest_distinct] Skip(3) p_row p_new
    show ?thesis by auto
  next
    case (Missing err)
    with Cons.prems(3) show ?thesis by auto
  next
    case (Failed provider t)
    with Cons.prems(3) show ?thesis by auto
  next
    case (More provider data ps'')
    let ?store1 = "store\<lparr>payment_rows := save_payment (refunded_by p data b) (payment_rows store)\<rparr>"
    note sr = saved_rows[of data]
    have d1: "distinct (map payment_id (payment_rows ?store1))"
      using sr Cons.prems(2) by simp
    have r1: "set ps \<subseteq> set (payment_rows ?store1)"
      using sr by simp
    note ih = Cons.IH[OF More(5) d1 r1 rest_distinct]
    have ids: "map payment_id (payment_rows store') = map payment_id (payment_rows store)"
      using ih sr by simp
    have mem: "set ps' \<subseteq> set (payment_rows store')"
    proof -
      have "refunded_by p data b \<in> set (payment_rows store')"
        using ih sr p_new by auto
      with ih More(6) show ?thesis by auto
    qed
    have others: "\<forall>r\<in>set (payment_rows store).
             payment_id r \<notin> payment_id ` set (p # ps) \<longrightarrow> r \<in> set (payment_rows store')"
      using ih sr by auto
    have grows: "amount_refunded (payment_rows store ! i) \<le> amount_refunded (payment_rows store' ! i)"
      if "0 \<le> b" "i < length (payment_rows store)" for i
    proof -
      have len: "length (save_payment (refunded_by p data b) (payment_rows store))
                   = length (payment_rows store)"
        using sr by (metis length_map)
      have "0 \<le> b - min (remaining p) b" by simp
      with ih that(2) len
      have "amount_refunded (save_payment (refunded_by p data b) (payment_rows store) ! i)
              \<le> amount_refunded (payment_rows store' ! i)"
        by simp
      moreover have "amount_refunded (payment_rows store ! i)
              \<le> amount_refunded (save_payment (refunded_by p data b) (payment_rows store) ! i)"
        using sr More(1) that by simp
      ultimately show ?thesis by simp
    qed
    from ids mem others grows show ?thesis by simp
  next
    case (Stop provider data)
    note sr = saved_rows[of data]
    from sr Stop(1,6,7) show ?thesis by auto
  qed
qed

lemma drain_from_start:
  assumes "distinct (map payment_id ps)"
  shows "drain d ps amount [] (find_position (unused_refundable []) ps) store = walk d ps amount store"
proof -
  have "drain d ([] @ ps) amount [] (find_position (unused_refundable []) ([] @ ps)) store
          = (case walk d ps amount store of (e, suf', store') \<Rightarrow> (e, [] @ suf', store'))"
    using assms by (intro drain_walk) simp_all
  then show ?thesis by (simp split: prod.splits)
qed

lemma fetched_distinct_ids:
  assumes "distinct ps" "set ps \<subseteq> set rows" "distinct (map payment_id rows)"
  shows "distinct (map payment_id ps)"
proof -
  from assms(3) have "inj_on payment_id (set rows)"
    by (simp add: distinct_map)
  with assms(2) have "inj_on payment_id (set ps)"
    by (meson inj_on_subset)
  with assms(1) show ?thesis by (simp add: distinct_map)
qed

lemma listPayments_rows: "set (listPayments store ids) \<subseteq> set (payment_rows store)"
proof -
  have "set (listPayments store ids)
          \<subseteq> set (newest_first (filter (\<lambda>p. payment_id p \<in> set ids) (payment_rows store)))"
    unfolding listPayments_def by (simp add: set_take_subset)
  then show ?thesis by (auto simp: newest_first_def)
qed



lemma listPayments_distinct_ids:
  assumes "distinct (map payment_id (payment_rows store))"
  shows "distinct (map payment_id (listPayments store ids))"
proof -
  from assms have "distinct (payment_rows store)"
    by (simp add: distinct_map)
  then have "distinct (listPayments store ids)"
    by (simp add: listPayments_def newest_first_def)
  from this listPayments_rows assms show ?thesis
    by (rule fetched_distinct_ids)
qed

lemma atomicPhase_Inr:
  "atomicPhase work s = (Inr r, s') \<longleftrightarrow> work s = (Inr r, s')"
  by (cases "work s"; cases "fst (work s)") (auto simp: atomicPhase_def)

lemma refundPayment_work_success:
  assumes "refundPayment_work d payObjs amount reason note store = (Inr refund, store')"
  obtains ps' store1 where
    "\<not> sum_list (map (\<lambda>p. payment_amount p - amount_refunded p)
            (filter (\<lambda>p. captured_at p \<noteq> None)
               (listPayments store (map payment_id payObjs)))) < amount"
    "drain d (listPayments store (map payment_id payObjs)) amount []
       (find_position (unused_refundable []) (listPayments store (map payment_id payObjs))) store
     = (None, ps', store1)"
    "refund = \<lparr>refund_order_id =
                  (if listPayments store (map payment_id payObjs) = [] then None
                   else payment_order_id (last (listPayments store (map payment_id payObjs)))),
                refund_payment_id = None, refund_amount = amount,
                refund_reason = reason, refund_note = note\<rparr>"
    "store' = store1\<lparr>refund_rows := refund_rows store1 @ [refund]\<rparr>"
proof -
  let ?payments = "listPayments store (map payment_id payObjs)"
  obtain e ps' store1 where dr:
    "drain d ?payments amount [] (find_position (unused_refundable []) ?payments) store
       = (e, ps', store1)"
    by (metis prod_cases3)
  from assms have ok: "\<not> sum_list (map (\<lambda>p. payment_amount p - amount_refunded p)
            (filter (\<lambda>p. captured_at p \<noteq> None) ?payments)) < amount"
    by (auto simp: refundPayment_work_unfold Let_def split: if_splits)
  with assms dr have none: "e = None"
    by (cases e) (simp_all add: refundPayment_work_unfold Let_def)
  from assms dr ok none have
    "refund = \<lparr>refund_order_id = (if ?payments = [] then None else payment_order_id (last ?payments)),
                refund_payment_id = None, refund_amount = amount,
                refund_reason = reason, refund_note = note\<rparr>"
    "store' = store1\<lparr>refund_rows := refund_rows store1 @ [refund]\<rparr>"
    by (auto simp: refundPayment_work_unfold Let_def)
  with ok dr none show thesis by (intro that[of ps' store1]) simp_all
qed

lemma atomicPhase_snd:
  "snd (atomicPhase work s) = (if isl (fst (work s)) then s else snd (work s))"
  by (cases "work s"; cases "fst (work s)") (auto simp: atomicPhase_def)

lemma refundFromPayment_work_rows_ok:
  "rows_ok (payment_rows store)
     \<Longrightarrow> rows_ok (payment_rows (snd (refundFromPayment_work d payment amount reason note store)))"
  by (auto simp: refundFromPayment_work_def Let_def rows_ok_save split: sum.splits)

lemma refundPayment_work_rows_ok:
  assumes "rows_ok (payment_rows store)"
  shows "rows_ok (payment_rows (snd (refundPayment_work d payObjs amount reason note store)))"
proof -
  let ?payments = "listPayments store (map payment_id payObjs)"
  obtain e ps' store1 where dr:
    "drain d ?payments amount [] (find_position (unused_refundable []) ?payments) store
       = (e, ps', store1)"
    by (metis prod_cases3)
  from drain_rows_ok[OF assms, of d ?payments amount "[]"
         "find_position (unused_refundable []) ?payments"] dr
  have "rows_ok (payment_rows store1)" by simp
  with assms dr show ?thesis
    by (cases e) (simp_all add: refundPayment_work_unfold Let_def)
qed

lemma exec_call_rows_ok:
  "rows_ok (payment_rows store) \<Longrightarrow> rows_ok (payment_rows (snd (exec_call d c store)))"
  by (cases c)
     (simp_all add: refundPayment_def refundFromPayment_def atomicPhase_snd
        refundPayment_work_rows_ok refundFromPayment_work_rows_ok)

lemma run_calls_rows_ok:
  "rows_ok (payment_rows store) \<Longrightarrow> rows_ok (payment_rows (run_calls d cs store))"
  by (induction cs arbitrary: store) (simp_all add: exec_call_rows_ok)

lemma refundFromPayment_work_grows:
  assumes "distinct (map payment_id (payment_rows store))"
    and "payment \<in> set (payment_rows store)"
    and "0 \<le> amount"
    and "store' = snd (refundFromPayment_work d payment amount reason note store)"
  shows "map payment_id (payment_rows store') = map payment_id (payment_rows store)
       \<and> (\<forall>i<length (payment_rows store).
            amount_refunded (payment_rows store ! i) \<le> amount_refunded (payment_rows store' ! i))"
proof (cases "fst (refundFromPayment_work d payment amount reason note store)")
  case (Inl e)
  then have "store' = store"
    unfolding assms(4)
    by (auto simp: refundFromPayment_work_def Let_def split: sum.splits if_splits)
  then show ?thesis by simp
next
  case (Inr refund)
  then obtain data where
    rows': "payment_rows store'
              = save_payment (payment\<lparr>payment_data := data,
                                     amount_refunded := amount_refunded payment + amount\<rparr>)
                  (payment_rows store)"
    unfolding assms(4)
    by (auto simp: refundFromPayment_work_def Let_def split: sum.splits if_splits)
  let ?q = "payment\<lparr>payment_data := data, amount_refunded := amount_refunded payment + amount\<rparr>"
  have present: "payment_id ?q \<in> payment_id ` set (payment_rows store)"
    using assms(2) by force
  have "amount_refunded (payment_rows store ! i) \<le> amount_refunded (payment_rows store' ! i)"
    if "i < length (payment_rows store)" for i
    using save_payment_nth[OF assms(1,2), of ?q i] that assms(3) rows' by auto
  with present rows' show ?thesis
    by (simp add: save_payment_ids)
qed

lemma refundPayment_work_grows:
  assumes "distinct (map payment_id (payment_rows store))"
    and "0 \<le> amount"
    and "store' = snd (refundPayment_work d payObjs amount reason note store)"
  shows "map payment_id (payment_rows store') = map payment_id (payment_rows store)
       \<and> (\<forall>i<length (payment_rows store).
            amount_refunded (payment_rows store ! i) \<le> amount_refunded (payment_rows store' ! i))"
proof -
  let ?payments = "listPayments store (map payment_id payObjs)"
  have ids: "distinct (map payment_id ?payments)"
    using assms(1) by (rule listPayments_distinct_ids)
  obtain e ps' store1 where w: "walk d ?payments amount store = (e, ps', store1)"
    by (metis prod_cases3)
  then have dr: "drain d ?payments amount [] (find_position (unused_refundable []) ?payments) store
               = (e, ps', store1)"
    by (simp add: drain_from_start[OF ids])
  note rows = walk_rows[OF w assms(1) listPayments_rows ids]
  have "payment_rows store' = payment_rows store \<or> payment_rows store' = payment_rows store1"
    unfolding assms(3) using dr
    by (cases e) (auto simp: refundPayment_work_unfold Let_def)
  with rows assms(2) show ?thesis by auto
qed

lemmas example_refund_defs =
  refundPayment_def refundPayment_work_def refundFromPayment_def refundFromPayment_work_def
  atomicPhase_def listPayments_def newest_first_def retrieveProvider_def container_get_def save_payment_def
  example_deps_def example_adapter_def example_system_adapter_def example_payment_def example_manual_payment_def example_ledger_def drain.simps Let_def

subsection \<open>The refund claims\<close>




text \<open>
  C2, as stated, fails in two ways. A call with a negative amount passes the balance check
  and lowers \<open>amount_refunded\<close>, through \<open>refundFromPayment\<close> and through
  \<open>refundPayment\<close> alike. And \<open>refundFromPayment\<close> saves the payment object it is
  given: an object that is behind the stored row, here refunded by 400 where the row is
  refunded by 900, lowers the row's \<open>amount_refunded\<close> to 500 with a refund of 100.
\<close>

theorem refund_negative_amount_counterexample:
  "map amount_refunded (payment_rows (example_ledger [example_manual_payment ''pay_1'' 1000 500 (Some 1)]))
     = [500]
   \<and> refundFromPayment (example_deps False) (example_manual_payment ''pay_1'' 1000 500 (Some 1)) (- 300)
       ''reason'' None (example_ledger [example_manual_payment ''pay_1'' 1000 500 (Some 1)])
     = (Inr \<lparr>refund_order_id = None, refund_payment_id = Some ''pay_1'', refund_amount = - 300,
             refund_reason = ''reason'', refund_note = None\<rparr>,
        \<lparr>payment_rows = [example_manual_payment ''pay_1'' 1000 200 (Some 1)],
         refund_rows = [\<lparr>refund_order_id = None, refund_payment_id = Some ''pay_1'',
                         refund_amount = - 300, refund_reason = ''reason'', refund_note = None\<rparr>],
         session_rows = []\<rparr>)
   \<and> refundPayment (example_deps False) [example_manual_payment ''pay_1'' 1000 500 (Some 1)] (- 300)
       ''reason'' None (example_ledger [example_manual_payment ''pay_1'' 1000 500 (Some 1)])
     = (Inr \<lparr>refund_order_id = Some ''order_1'', refund_payment_id = None, refund_amount = - 300,
             refund_reason = ''reason'', refund_note = None\<rparr>,
        \<lparr>payment_rows = [example_manual_payment ''pay_1'' 1000 200 (Some 1)],
         refund_rows = [\<lparr>refund_order_id = Some ''order_1'', refund_payment_id = None,
                         refund_amount = - 300, refund_reason = ''reason'', refund_note = None\<rparr>],
         session_rows = []\<rparr>)
   \<and> amount_refunded (example_manual_payment ''pay_1'' 1000 200 (Some 1))
     < amount_refunded (example_manual_payment ''pay_1'' 1000 500 (Some 1))
   \<and> map amount_refunded (payment_rows (example_ledger [example_manual_payment ''pay_1'' 1000 900 (Some 1)]))
     = [900]
   \<and> refundFromPayment (example_deps False) (example_manual_payment ''pay_1'' 1000 400 (Some 1)) 100
       ''reason'' None (example_ledger [example_manual_payment ''pay_1'' 1000 900 (Some 1)])
     = (Inr \<lparr>refund_order_id = None, refund_payment_id = Some ''pay_1'', refund_amount = 100,
             refund_reason = ''reason'', refund_note = None\<rparr>,
        \<lparr>payment_rows = [example_manual_payment ''pay_1'' 1000 500 (Some 1)],
         refund_rows = [\<lparr>refund_order_id = None, refund_payment_id = Some ''pay_1'',
                         refund_amount = 100, refund_reason = ''reason'', refund_note = None\<rparr>],
         session_rows = []\<rparr>)
   \<and> amount_refunded (example_manual_payment ''pay_1'' 1000 500 (Some 1))
     < amount_refunded (example_manual_payment ''pay_1'' 1000 900 (Some 1))"
  by (simp add: example_refund_defs)

text \<open>
  C2, amended. Starting from a payment table in which no row is refunded beyond its amount,
  the same holds after every sequence of \<open>refundPayment\<close> and \<open>refundFromPayment\<close>
  calls, whatever their arguments and whether they return or fail. A call with a
  non-negative amount on a table with distinct ids, where the payment object given to
  \<open>refundFromPayment\<close> is the stored row, keeps the rows and their ids in place and
  lowers no row's \<open>amount_refunded\<close>.
\<close>

theorem refund_calls_keep_refunded_within_amount:
  "((\<forall>p\<in>set (payment_rows store). amount_refunded p \<le> payment_amount p)
      \<longrightarrow> (\<forall>p\<in>set (payment_rows (run_calls d calls store)).
             amount_refunded p \<le> payment_amount p))
   \<and> (distinct (map payment_id (payment_rows store)) \<and> current_call store c
        \<and> 0 \<le> call_amount c
      \<longrightarrow> map payment_id (payment_rows (snd (exec_call d c store)))
            = map payment_id (payment_rows store)
          \<and> (\<forall>i<length (payment_rows store).
                amount_refunded (payment_rows store ! i)
                  \<le> amount_refunded (payment_rows (snd (exec_call d c store)) ! i)))"
proof (intro conjI impI)
  assume "\<forall>p\<in>set (payment_rows store). amount_refunded p \<le> payment_amount p"
  then have "rows_ok (payment_rows store)"
    by (simp add: rows_ok_def list_all_iff)
  then have "rows_ok (payment_rows (run_calls d calls store))"
    by (rule run_calls_rows_ok)
  then show "\<forall>p\<in>set (payment_rows (run_calls d calls store)). amount_refunded p \<le> payment_amount p"
    by (simp add: rows_ok_def list_all_iff)
next
  assume a: "distinct (map payment_id (payment_rows store)) \<and> current_call store c
               \<and> 0 \<le> call_amount c"
  have both: "map payment_id (payment_rows (snd (exec_call d c store)))
            = map payment_id (payment_rows store)
          \<and> (\<forall>i<length (payment_rows store).
                amount_refunded (payment_rows store ! i)
                  \<le> amount_refunded (payment_rows (snd (exec_call d c store)) ! i))"
  proof (cases c)
    case (RefundPayment payObjs amount reason nt)
    with a refundPayment_work_grows[of store amount _ d payObjs reason nt]
    show ?thesis
      by (simp add: refundPayment_def atomicPhase_snd)
  next
    case (RefundFromPayment payment amount reason nt)
    with a refundFromPayment_work_grows[of store payment amount _ d reason nt]
    show ?thesis
      by (simp add: refundFromPayment_def atomicPhase_snd)
  qed
  from both show "map payment_id (payment_rows (snd (exec_call d c store)))
            = map payment_id (payment_rows store)" by simp
  from both show "\<forall>i<length (payment_rows store).
                amount_refunded (payment_rows store ! i)
                  \<le> amount_refunded (payment_rows (snd (exec_call d c store)) ! i)" by simp
qed

theorem refund_calls_keep_refunded_within_amount_witness:
  "list_all (\<lambda>p. amount_refunded p \<le> payment_amount p)
     (payment_rows (example_ledger [example_manual_payment ''pay_1'' 1000 0 (Some 1),
                                    example_manual_payment ''pay_2'' 500 0 (Some 2)]))
   \<and> list_all (\<lambda>p. amount_refunded p \<le> payment_amount p)
     (payment_rows
        (run_calls (example_deps False)
           [RefundFromPayment (example_manual_payment ''pay_2'' 500 0 (Some 2)) 300 ''reason'' None,
            RefundPayment [example_manual_payment ''pay_1'' 1000 0 (Some 1),
                           example_manual_payment ''pay_2'' 500 0 (Some 2)] 1100 ''reason'' None,
            RefundFromPayment (example_manual_payment ''pay_1'' 1000 0 (Some 1)) 5000 ''reason'' None]
           (example_ledger [example_manual_payment ''pay_1'' 1000 0 (Some 1),
                            example_manual_payment ''pay_2'' 500 0 (Some 2)])))
   \<and> distinct (map payment_id
        (payment_rows (example_ledger [example_manual_payment ''pay_1'' 1000 0 (Some 1),
                                       example_manual_payment ''pay_2'' 500 0 (Some 2)])))
   \<and> current_call
        (example_ledger [example_manual_payment ''pay_1'' 1000 0 (Some 1),
                         example_manual_payment ''pay_2'' 500 0 (Some 2)])
        (RefundPayment [example_manual_payment ''pay_1'' 1000 0 (Some 1),
                        example_manual_payment ''pay_2'' 500 0 (Some 2)] 1100 ''reason'' None)
   \<and> amount_refunded
        (payment_rows (example_ledger [example_manual_payment ''pay_1'' 1000 0 (Some 1),
                                       example_manual_payment ''pay_2'' 500 0 (Some 2)]) ! 1)
       \<le> amount_refunded
            (payment_rows
               (snd (exec_call (example_deps False)
                       (RefundPayment [example_manual_payment ''pay_1'' 1000 0 (Some 1),
                                       example_manual_payment ''pay_2'' 500 0 (Some 2)] 1100
                          ''reason'' None)
                       (example_ledger [example_manual_payment ''pay_1'' 1000 0 (Some 1),
                                        example_manual_payment ''pay_2'' 500 0 (Some 2)]))) ! 1)
   \<and> current_call
        (example_ledger [example_manual_payment ''pay_1'' 1000 0 (Some 1),
                         example_manual_payment ''pay_2'' 500 0 (Some 2)])
        (RefundFromPayment (example_manual_payment ''pay_2'' 500 0 (Some 2)) 300 ''reason'' None)
   \<and> amount_refunded
        (payment_rows (example_ledger [example_manual_payment ''pay_1'' 1000 0 (Some 1),
                                       example_manual_payment ''pay_2'' 500 0 (Some 2)]) ! 1)
       \<le> amount_refunded
            (payment_rows
               (snd (exec_call (example_deps False)
                       (RefundFromPayment (example_manual_payment ''pay_2'' 500 0 (Some 2)) 300
                          ''reason'' None)
                       (example_ledger [example_manual_payment ''pay_1'' 1000 0 (Some 1),
                                        example_manual_payment ''pay_2'' 500 0 (Some 2)]))) ! 1)"
proof -
  let ?ps = "[example_manual_payment ''pay_1'' 1000 0 (Some 1), example_manual_payment ''pay_2'' 500 0 (Some 2)]"
  let ?calls = "[RefundFromPayment (example_manual_payment ''pay_2'' 500 0 (Some 2)) 300 ''reason'' None,
            RefundPayment ?ps 1100 ''reason'' None,
            RefundFromPayment (example_manual_payment ''pay_1'' 1000 0 (Some 1)) 5000 ''reason'' None]"
  let ?c = "RefundPayment ?ps 1100 ''reason'' None"
  let ?c2 = "RefundFromPayment (example_manual_payment ''pay_2'' 500 0 (Some 2)) 300 ''reason'' None"
  have h1: "\<forall>p\<in>set (payment_rows (example_ledger ?ps)). amount_refunded p \<le> payment_amount p"
    by (simp add: example_ledger_def example_payment_def example_manual_payment_def)
  have h2: "distinct (map payment_id (payment_rows (example_ledger ?ps)))"
    by (simp add: example_ledger_def example_payment_def example_manual_payment_def)
  have h3: "current_call (example_ledger ?ps) ?c"
    by simp
  have h4: "0 \<le> call_amount ?c" by simp
  have h5: "current_call (example_ledger ?ps) ?c2"
    by (simp add: example_ledger_def)
  have h6: "0 \<le> call_amount ?c2" by simp
  have len: "1 < length (payment_rows (example_ledger ?ps))"
    by (simp add: example_ledger_def)
  note t = refund_calls_keep_refunded_within_amount[of "example_ledger ?ps" "example_deps False"
             ?calls ?c]
  note t2 = refund_calls_keep_refunded_within_amount[of "example_ledger ?ps" "example_deps False"
             ?calls ?c2]
  from t h1 have a: "\<forall>p\<in>set (payment_rows (run_calls (example_deps False) ?calls (example_ledger ?ps))).
                       amount_refunded p \<le> payment_amount p"
    by blast
  from t h2 h3 h4 len have b: "amount_refunded (payment_rows (example_ledger ?ps) ! 1)
       \<le> amount_refunded (payment_rows (snd (exec_call (example_deps False) ?c (example_ledger ?ps))) ! 1)"
    by blast
  from t2 h2 h5 h6 len have b2: "amount_refunded (payment_rows (example_ledger ?ps) ! 1)
       \<le> amount_refunded (payment_rows (snd (exec_call (example_deps False) ?c2 (example_ledger ?ps))) ! 1)"
    by blast
  from h1 a h2 h3 b h5 b2 show ?thesis
    by (simp add: list_all_iff)
qed

text \<open>
  C3, as stated, fails in two ways. With a negative amount and no payment that has a
  positive balance, the call returns and creates the refund without touching a payment, so
  the increments sum to 0 and not to the requested amount. And the drain follows the order
  in which \<open>listPayments\<close> fetches the payments, newest first, not the order in which they
  are given: of an older and a newer payment, given in that order, a refund of 300 is taken
  from the newer one, where the greedy pass over the given order takes it from the older.
\<close>

theorem refundPayment_negative_amount_counterexample:
  "refundPayment (example_deps False) [example_manual_payment ''pay_1'' 1000 1000 (Some 1)] (- 5)
       ''reason'' None (example_ledger [example_manual_payment ''pay_1'' 1000 1000 (Some 1)])
     = (Inr \<lparr>refund_order_id = Some ''order_1'', refund_payment_id = None, refund_amount = - 5,
             refund_reason = ''reason'', refund_note = None\<rparr>,
        \<lparr>payment_rows = [example_manual_payment ''pay_1'' 1000 1000 (Some 1)],
         refund_rows = [\<lparr>refund_order_id = Some ''order_1'', refund_payment_id = None,
                         refund_amount = - 5, refund_reason = ''reason'', refund_note = None\<rparr>],
         session_rows = []\<rparr>)
   \<and> sum_list (map2 (\<lambda>after before. amount_refunded after - amount_refunded before)
        [example_manual_payment ''pay_1'' 1000 1000 (Some 1)]
        [example_manual_payment ''pay_1'' 1000 1000 (Some 1)]) \<noteq> - 5
   \<and> refundPayment (example_deps False)
       [example_dated_payment ''pay_old'' 1000 0 1, example_dated_payment ''pay_new'' 1000 0 2] 300
       ''reason'' None
       (example_ledger [example_dated_payment ''pay_old'' 1000 0 1,
                        example_dated_payment ''pay_new'' 1000 0 2])
     = (Inr \<lparr>refund_order_id = Some ''order_1'', refund_payment_id = None, refund_amount = 300,
             refund_reason = ''reason'', refund_note = None\<rparr>,
        \<lparr>payment_rows = [example_dated_payment ''pay_old'' 1000 0 1,
                         example_dated_payment ''pay_new'' 1000 300 2],
         refund_rows = [\<lparr>refund_order_id = Some ''order_1'', refund_payment_id = None,
                         refund_amount = 300, refund_reason = ''reason'', refund_note = None\<rparr>],
         session_rows = []\<rparr>)
   \<and> spec_greedy_increments
        (map (\<lambda>p. payment_amount p - amount_refunded p)
           [example_dated_payment ''pay_old'' 1000 0 1, example_dated_payment ''pay_new'' 1000 0 2])
        300
     = [300, 0]
   \<and> map2 (\<lambda>after before. amount_refunded after - amount_refunded before)
        [example_dated_payment ''pay_old'' 1000 0 1, example_dated_payment ''pay_new'' 1000 300 2]
        [example_dated_payment ''pay_old'' 1000 0 1, example_dated_payment ''pay_new'' 1000 0 2]
     = [0, 300]"
  by (simp add: example_refund_defs example_dated_payment_def)

text \<open>
  C3, amended. For a successful \<open>refundPayment\<close> call with a non-negative amount, on a
  payment table with distinct ids: exactly one refund row is added and its amount is the
  requested amount; each fetched payment's stored \<open>amount_refunded\<close> grows by its greedy
  increment, the payments taken in the order in which \<open>listPayments\<close> fetches them, each
  with a positive balance giving the smaller of its balance and of what is left of the
  request; and the increments sum to the requested amount.
\<close>

theorem refundPayment_one_refund_greedy_drain:
  assumes "refundPayment d payObjs amount reason note store = (Inr refund, store')"
    and "0 \<le> amount"
    and "payments = listPayments store (map payment_id payObjs)"
    and "distinct (map payment_id (payment_rows store))"
  shows "refund_rows store' = refund_rows store @ [refund]
       \<and> refund_amount refund = amount
       \<and> (\<forall>i<length payments.
            \<exists>saved. retrievePayment store' (payment_id (payments ! i)) = Inr saved
              \<and> amount_refunded saved
                  = amount_refunded (payments ! i)
                    + spec_greedy_increments
                        (map (\<lambda>p. payment_amount p - amount_refunded p) payments) amount ! i)
       \<and> sum_list (spec_greedy_increments
                     (map (\<lambda>p. payment_amount p - amount_refunded p) payments) amount) = amount"
proof -
  have rem: "map (\<lambda>p. payment_amount p - amount_refunded p) payments = map remaining payments"
    by (simp add: remaining_def)
  from assms(1) have work: "refundPayment_work d payObjs amount reason note store = (Inr refund, store')"
    by (simp add: refundPayment_def atomicPhase_Inr)
  from work obtain ps' store1 where
    enough: "\<not> sum_list (map (\<lambda>p. payment_amount p - amount_refunded p)
               (filter (\<lambda>p. captured_at p \<noteq> None) payments)) < amount"
    and dr: "drain d payments amount [] (find_position (unused_refundable []) payments) store
               = (None, ps', store1)"
    and created: "refund_amount refund = amount"
    and store': "store' = store1\<lparr>refund_rows := refund_rows store1 @ [refund]\<rparr>"
    unfolding assms(3) by (rule refundPayment_work_success) simp
  have ids: "distinct (map payment_id payments)"
    unfolding assms(3) using assms(4) by (rule listPayments_distinct_ids)
  have sub: "set payments \<subseteq> set (payment_rows store)"
    unfolding assms(3) by (rule listPayments_rows)
  from dr have w: "walk d payments amount store = (None, ps', store1)"
    by (simp add: drain_from_start[OF ids])
  note rows = walk_rows[OF w assms(4) sub ids]
  have same_ids: "map payment_id ps' = map payment_id payments"
    using w by (rule walk_ids)
  then have len: "length ps' = length payments"
    by (metis length_map)
  have incs: "map amount_refunded ps'
                = map2 (+) (map amount_refunded payments)
                    (spec_greedy_increments (map remaining payments) amount)"
    using w assms(2) by (rule walk_increments)
  have others: "refund_rows store1 = refund_rows store"
    using drain_other_tables[of d payments amount "[]"
            "find_position (unused_refundable []) payments" store] dr
    by simp
  have one: "refund_rows store' = refund_rows store @ [refund]"
    using store' others by simp
  have each: "\<exists>saved. retrievePayment store' (payment_id (payments ! i)) = Inr saved
              \<and> amount_refunded saved
                  = amount_refunded (payments ! i)
                    + spec_greedy_increments (map remaining payments) amount ! i"
    if i: "i < length payments" for i
  proof -
    have mem: "ps' ! i \<in> set (payment_rows store1)"
      using rows i len by (metis nth_mem subsetD)
    have d1: "distinct (map payment_id (payment_rows store1))"
      using rows assms(4) by simp
    have "payment_id (ps' ! i) = payment_id (payments ! i)"
      using same_ids i len by (metis nth_map)
    with find_row[OF d1 mem] store'
    have found: "retrievePayment store' (payment_id (payments ! i)) = Inr (ps' ! i)"
      by (simp add: retrievePayment_def)
    have "amount_refunded (ps' ! i) = map amount_refunded ps' ! i"
      using i len by simp
    also have "\<dots> = amount_refunded (payments ! i)
                    + spec_greedy_increments (map remaining payments) amount ! i"
      using i by (simp add: incs)
    finally show ?thesis using found by blast
  qed
  have "sum_list (map remaining (filter (\<lambda>p. captured_at p \<noteq> None) payments)) \<le>
          sum_list (filter (\<lambda>r. 0 < r) (map remaining payments))"
    by (rule captured_balance_le_positive_balance)
  with enough have "amount \<le> sum_list (filter (\<lambda>r. 0 < r) (map remaining payments))"
    by (simp add: remaining_def[abs_def])
  with assms(2) have total: "sum_list (spec_greedy_increments (map remaining payments) amount) = amount"
    by (rule greedy_increments_sum)
  from one created each total show ?thesis
    unfolding rem by blast
qed

theorem refundPayment_one_refund_greedy_drain_witness:
  "refundPayment (example_deps False)
       [example_dated_payment ''pay_old'' 1000 0 1, example_dated_payment ''pay_new'' 500 0 2] 700
       ''reason'' None
       (example_ledger [example_dated_payment ''pay_old'' 1000 0 1,
                        example_dated_payment ''pay_new'' 500 0 2])
     = (Inr \<lparr>refund_order_id = Some ''order_1'', refund_payment_id = None, refund_amount = 700,
             refund_reason = ''reason'', refund_note = None\<rparr>,
        \<lparr>payment_rows = [example_dated_payment ''pay_old'' 1000 200 1,
                         example_dated_payment ''pay_new'' 500 500 2],
         refund_rows = [\<lparr>refund_order_id = Some ''order_1'', refund_payment_id = None,
                         refund_amount = 700, refund_reason = ''reason'', refund_note = None\<rparr>],
         session_rows = []\<rparr>)
   \<and> listPayments
        (example_ledger [example_dated_payment ''pay_old'' 1000 0 1,
                         example_dated_payment ''pay_new'' 500 0 2])
        (map payment_id [example_dated_payment ''pay_old'' 1000 0 1,
                         example_dated_payment ''pay_new'' 500 0 2])
     = [example_dated_payment ''pay_new'' 500 0 2, example_dated_payment ''pay_old'' 1000 0 1]
   \<and> (\<exists>saved. retrievePayment
                 \<lparr>payment_rows = [example_dated_payment ''pay_old'' 1000 200 1,
                                  example_dated_payment ''pay_new'' 500 500 2],
                  refund_rows = [\<lparr>refund_order_id = Some ''order_1'', refund_payment_id = None,
                                  refund_amount = 700, refund_reason = ''reason'',
                                  refund_note = None\<rparr>],
                  session_rows = []\<rparr> ''pay_old'' = Inr saved
              \<and> amount_refunded saved = 0 + spec_greedy_increments [500, 1000] 700 ! 1)
   \<and> spec_greedy_increments [500, 1000] 700 = [500, 200]
   \<and> sum_list (spec_greedy_increments [500, 1000] 700) = 700"
proof -
  let ?ps = "[example_dated_payment ''pay_old'' 1000 0 1, example_dated_payment ''pay_new'' 500 0 2]"
  let ?fetched = "[example_dated_payment ''pay_new'' 500 0 2, example_dated_payment ''pay_old'' 1000 0 1]"
  let ?refund = "\<lparr>refund_order_id = Some ''order_1'', refund_payment_id = None, refund_amount = 700,
             refund_reason = ''reason'', refund_note = None\<rparr>"
  let ?store' = "\<lparr>payment_rows = [example_dated_payment ''pay_old'' 1000 200 1,
                         example_dated_payment ''pay_new'' 500 500 2],
         refund_rows = [?refund], session_rows = []\<rparr>"
  have h1: "refundPayment (example_deps False) ?ps 700 ''reason'' None (example_ledger ?ps)
              = (Inr ?refund, ?store')"
    by (simp add: example_refund_defs example_dated_payment_def)
  have h2: "(0::int) \<le> 700" by simp
  have h3: "?fetched = listPayments (example_ledger ?ps) (map payment_id ?ps)"
    by (simp add: listPayments_def newest_first_def example_ledger_def example_payment_def
          example_manual_payment_def example_dated_payment_def)
  have h4: "distinct (map payment_id (payment_rows (example_ledger ?ps)))"
    by (simp add: example_ledger_def example_payment_def example_manual_payment_def
          example_dated_payment_def)
  have rems: "map (\<lambda>p. payment_amount p - amount_refunded p) ?fetched = [500, 1000]"
    by (simp add: example_payment_def example_manual_payment_def example_dated_payment_def)
  note t = refundPayment_one_refund_greedy_drain[OF h1 h2 h3 h4, unfolded rems]
  from t have each: "\<forall>i<length ?fetched.
            \<exists>saved. retrievePayment ?store' (payment_id (?fetched ! i)) = Inr saved
              \<and> amount_refunded saved
                  = amount_refunded (?fetched ! i) + spec_greedy_increments [500, 1000] 700 ! i"
    by blast
  have second: "\<exists>saved. retrievePayment ?store' ''pay_old'' = Inr saved
              \<and> amount_refunded saved = 0 + spec_greedy_increments [500, 1000] 700 ! 1"
    using each[rule_format, of 1]
    by (simp add: example_payment_def example_manual_payment_def example_dated_payment_def)
  have incs: "spec_greedy_increments [500, 1000] 700 = [500, 200]"
    by simp
  from h1 h3[symmetric] second incs t show ?thesis by blast
qed

end
